theory Spec2Isabelle
  imports Main "HOL-Library.Char_ord" "HOL-Library.List_Lexorder" "HOL-Library.Sublist"
begin

section \<open>The rating tracker of update\_rating.py\<close>

text \<open>
  The program is one Python file: it fetches a rating, merges it into a history kept
  as a JSON array on disk, draws the history as an SVG chart and rewrites a README.
  The embedding keeps the source's function names. Python strings are \<open>string\<close>
  (compared lexicographically by character code, as Python compares \<open>str\<close>), Python
  integers are \<open>int\<close>, exceptions are values of \<open>py_error\<close>, and the files and the
  standard output are fields of an explicit \<open>world\<close> that every effectful function
  takes and returns.
\<close>

subsection \<open>Data\<close>

text \<open>
  A history entry is the dictionary \<^verbatim>\<open>{'date': ..., 'rating': ..., 'updated': ...}\<close> that
  \<^verbatim>\<open>add_today_rating\<close> builds; the history is the list of them, in file order.
\<close>

record entry =
  date :: string
  rating :: int
  updated :: string

type_synonym history = "entry list"

datatype py_error = ValueError | JSONDecodeError | ZeroDivisionError

text \<open>The module constants (lines 8 to 11).\<close>

definition CHESS_USERNAME :: string where
  "CHESS_USERNAME = ''AnishTheAnnihilator''"

definition HISTORY_FILE :: string where
  "HISTORY_FILE = ''rating_history.json''"

definition GRAPH_FILE :: string where
  "GRAPH_FILE = ''rating_trend.svg''"

definition README_FILE :: string where
  "README_FILE = ''README.md''"

subsection \<open>Formatting numbers\<close>

text \<open>The character of a decimal digit, \<^verbatim>\<open>"0123456789"[n]\<close>.\<close>

definition digit_char :: "nat \<Rightarrow> char" where
  "digit_char n = ''0123456789'' ! n"

text \<open>\<^verbatim>\<open>str(n)\<close> for a natural number: its decimal digits, most significant first.\<close>

fun str_nat :: "nat \<Rightarrow> string" where
  "str_nat n = (if n < 10 then [digit_char n] else str_nat (n div 10) @ [digit_char (n mod 10)])"

declare str_nat.simps [simp del]

text \<open>\<^verbatim>\<open>str(i)\<close>, which is also what an f-string field \<^verbatim>\<open>{i}\<close> renders for an integer.\<close>

definition str_int :: "int \<Rightarrow> string" where
  "str_int i = (if i < 0 then CHR ''-'' # str_nat (nat (- i)) else str_nat (nat i))"

text \<open>
  The zero-padded fields of \<^verbatim>\<open>strftime\<close> and \<^verbatim>\<open>isoformat\<close>: two digits for a value
  below 100 (month, day, hour, minute, second), four for a year up to 9999 (the largest
  year a \<^verbatim>\<open>datetime\<close> can hold), six for the microseconds.
\<close>

definition pad2 :: "nat \<Rightarrow> string" where
  "pad2 n = [digit_char (n div 10 mod 10), digit_char (n mod 10)]"

definition pad4 :: "nat \<Rightarrow> string" where
  "pad4 n = [digit_char (n div 1000 mod 10), digit_char (n div 100 mod 10),
             digit_char (n div 10 mod 10), digit_char (n mod 10)]"

definition pad6 :: "nat \<Rightarrow> string" where
  "pad6 n = [digit_char (n div 100000 mod 10), digit_char (n div 10000 mod 10)] @ pad4 (n mod 10000)"

subsection \<open>The clock\<close>

text \<open>
  A reading of \<^verbatim>\<open>datetime.now()\<close>. One run of the program is taken to read the same
  instant at every call of \<^verbatim>\<open>datetime.now()\<close>: the reading \<open>now\<close> is a parameter of the
  functions that call it.
\<close>

record datetime =
  year :: nat
  month :: nat
  day :: nat
  hour :: nat
  minute :: nat
  second :: nat
  microsecond :: nat

definition is_leap :: "nat \<Rightarrow> bool" where
  "is_leap y = (y mod 4 = 0 \<and> (y mod 100 \<noteq> 0 \<or> y mod 400 = 0))"

definition days_in_month :: "nat \<Rightarrow> nat \<Rightarrow> nat" where
  "days_in_month y m =
     (if m = 2 then (if is_leap y then 29 else 28)
      else if m = 4 \<or> m = 6 \<or> m = 9 \<or> m = 11 then 30 else 31)"

text \<open>
  The calendar dates a \<^verbatim>\<open>datetime\<close> can hold (years 1 to 9999 of the Gregorian
  calendar), and the readings of a system clock, which counts from 1970.
\<close>

definition valid_date :: "datetime \<Rightarrow> bool" where
  "valid_date dt = (1 \<le> year dt \<and> year dt \<le> 9999 \<and> 1 \<le> month dt \<and> month dt \<le> 12
     \<and> 1 \<le> day dt \<and> day dt \<le> days_in_month (year dt) (month dt))"

definition valid_now :: "datetime \<Rightarrow> bool" where
  "valid_now dt = (valid_date dt \<and> 1970 \<le> year dt)"

text \<open>\<^verbatim>\<open>dt.strftime('%Y-%m-%d')\<close>.\<close>

definition strftime_ymd :: "datetime \<Rightarrow> string" where
  "strftime_ymd dt = pad4 (year dt) @ ''-'' @ pad2 (month dt) @ ''-'' @ pad2 (day dt)"

text \<open>\<^verbatim>\<open>dt.strftime('%Y-%m-%d %H:%M')\<close>.\<close>

definition strftime_ymd_hm :: "datetime \<Rightarrow> string" where
  "strftime_ymd_hm dt = strftime_ymd dt @ '' '' @ pad2 (hour dt) @ '':'' @ pad2 (minute dt)"

text \<open>\<^verbatim>\<open>dt.isoformat()\<close>: the fraction is printed only when the microseconds are not zero.\<close>

definition isoformat :: "datetime \<Rightarrow> string" where
  "isoformat dt = strftime_ymd dt @ ''T'' @ pad2 (hour dt) @ '':'' @ pad2 (minute dt) @ '':''
     @ pad2 (second dt) @ (if microsecond dt = 0 then [] else ''.'' @ pad6 (microsecond dt))"

text \<open>
  \<^verbatim>\<open>dt - timedelta(days=n)\<close>: the same time of day, \<open>n\<close> calendar days earlier. One day
  back is the previous day of the month, or the last day of the previous month, or
  31 December of the previous year. (Python raises OverflowError when the result would
  lie before year 1, which a reading of the system clock never gives.)
\<close>

definition prev_day :: "datetime \<Rightarrow> datetime" where
  "prev_day dt =
     (if 1 < day dt then dt\<lparr>day := day dt - 1\<rparr>
      else if 1 < month dt
        then dt\<lparr>month := month dt - 1, day := days_in_month (year dt) (month dt - 1)\<rparr>
      else dt\<lparr>year := year dt - 1, month := 12, day := 31\<rparr>)"

fun minus_days :: "nat \<Rightarrow> datetime \<Rightarrow> datetime" where
  "minus_days 0 dt = dt"
| "minus_days (Suc n) dt = minus_days n (prev_day dt)"

subsection \<open>Files, standard output and the network\<close>

text \<open>
  The state outside the program: the files of the working directory, by name, and the
  lines printed so far. \<^verbatim>\<open>open(name, 'w')\<close> followed by a write replaces the file.
\<close>

record world =
  files :: "string \<rightharpoonup> string"
  stdout :: "string list"

definition print :: "string \<Rightarrow> world \<Rightarrow> world" where
  "print line w = w\<lparr>stdout := stdout w @ [line]\<rparr>"

definition write_file :: "string \<Rightarrow> string \<Rightarrow> world \<Rightarrow> world" where
  "write_file name content w = w\<lparr>files := (files w)(name \<mapsto> content)\<rparr>"

text \<open>
  What the request of \<^verbatim>\<open>fetch_current_rating\<close> meets: either \<^verbatim>\<open>urlopen\<close>, the read, the
  decoding or \<^verbatim>\<open>json.loads\<close> raises an exception (kept as its message), or the body
  decodes to the statistics object, a dictionary of dictionaries whose innermost values
  are the numbers of the API.
\<close>

type_synonym stats = "string \<rightharpoonup> (string \<rightharpoonup> (string \<rightharpoonup> int))"

datatype response = Failed string | Decoded stats

text \<open>
  \<^verbatim>\<open>fetch_current_rating\<close> (lines 13 to 21). Every exception is caught and printed; a
  missing \<^verbatim>\<open>'rating'\<close> key raises KeyError inside the \<^verbatim>\<open>try\<close>, whose message is the
  quoted key.
\<close>

definition fetch_current_rating :: "response \<Rightarrow> world \<Rightarrow> int option \<times> world" where
  "fetch_current_rating resp w =
     (case resp of
        Failed e \<Rightarrow> (None, print (''Error fetching rating: '' @ e) w)
      | Decoded data \<Rightarrow>
          (case data ''chess_rapid'' of
             None \<Rightarrow> (None, w)
           | Some rapid \<Rightarrow>
               (case rapid ''last'' of
                  None \<Rightarrow> (None, w)
                | Some last_game \<Rightarrow>
                    (case last_game ''rating'' of
                       None \<Rightarrow> (None, print (''Error fetching rating: ''
                                 @ [CHR 0x27] @ ''rating'' @ [CHR 0x27]) w)
                     | Some r \<Rightarrow> (Some r, w)))))"

text \<open>
  \<^verbatim>\<open>load_history\<close> and \<^verbatim>\<open>save_history\<close> (lines 23 to 31). The JSON codec is the
  standard library's: \<open>json_load\<close> stands for \<^verbatim>\<open>json.load\<close> on the text of the file
  (it raises on a text that is not JSON) and \<open>json_dump\<close> for \<^verbatim>\<open>json.dump\<close> with
  \<^verbatim>\<open>indent=2\<close>; both are parameters.
\<close>

definition load_history :: "(string \<Rightarrow> py_error + history) \<Rightarrow> world \<Rightarrow> py_error + history" where
  "load_history json_load w =
     (case files w HISTORY_FILE of
        Some text \<Rightarrow> json_load text
      | None \<Rightarrow> Inr [])"

definition save_history :: "(history \<Rightarrow> string) \<Rightarrow> history \<Rightarrow> world \<Rightarrow> world" where
  "save_history json_dump history w = write_file HISTORY_FILE (json_dump history) w"

subsection \<open>The history store\<close>

text \<open>
  The \<^verbatim>\<open>for ... else\<close> loop of \<^verbatim>\<open>add_today_rating\<close> (lines 39 to 43): the first entry
  dated \<open>today\<close> gets the new rating and time stamp and the loop breaks; \<open>None\<close> when
  the loop ends without a break.
\<close>

fun update_today :: "string \<Rightarrow> int \<Rightarrow> string \<Rightarrow> history \<Rightarrow> history option" where
  "update_today today r stamp [] = None"
| "update_today today r stamp (e # es) =
     (if date e = today then Some (e\<lparr>rating := r, updated := stamp\<rparr> # es)
      else map_option ((#) e) (update_today today r stamp es))"

text \<open>Lines 39 to 49: update in place, or append a new entry in the loop's \<^verbatim>\<open>else\<close>.\<close>

definition upsert_today :: "datetime \<Rightarrow> history \<Rightarrow> int \<Rightarrow> history" where
  "upsert_today now history r =
     (case update_today (strftime_ymd now) r (isoformat now) history of
        Some h \<Rightarrow> h
      | None \<Rightarrow> history @ [\<lparr>date = strftime_ymd now, rating = r, updated = isoformat now\<rparr>])"

text \<open>Lines 53 and 54 (and 160 and 161).\<close>

definition cutoff_str :: "datetime \<Rightarrow> string" where
  "cutoff_str now = strftime_ymd (minus_days 30 now)"

text \<open>\<^verbatim>\<open>[entry for entry in history if entry['date'] >= cutoff_str]\<close>.\<close>

definition prune :: "datetime \<Rightarrow> history \<Rightarrow> history" where
  "prune now history = filter (\<lambda>entry. cutoff_str now \<le> date entry) history"

text \<open>Lines 57 and 58: \<^verbatim>\<open>history[-30:]\<close> when there are more than 30 entries.\<close>

definition cap30 :: "history \<Rightarrow> history" where
  "cap30 history = (if length history > 30 then drop (length history - 30) history else history)"

text \<open>
  \<^verbatim>\<open>add_today_rating\<close>. The sort of line 51 is Python's stable sort on the date
  strings; \<open>sort_key\<close> is a stable insertion sort on the same key.
\<close>

definition add_today_rating :: "datetime \<Rightarrow> history \<Rightarrow> int option \<Rightarrow> history" where
  "add_today_rating now history new_rating =
     (case new_rating of
        None \<Rightarrow> history
      | Some r \<Rightarrow> cap30 (prune now (sort_key date (upsert_today now history r))))"

text \<open>
  \<^verbatim>\<open>cleanup_old_data\<close> (lines 157 to 170): when the file exists and pruning removes
  entries, the pruned history is saved and returned; in every other case the history is
  loaded (again) and returned.
\<close>

definition cleanup_old_data ::
  "(string \<Rightarrow> py_error + history) \<Rightarrow> (history \<Rightarrow> string) \<Rightarrow> datetime \<Rightarrow> world
     \<Rightarrow> (py_error + history) \<times> world" where
  "cleanup_old_data json_load json_dump now w =
     (if files w HISTORY_FILE \<noteq> None then
        (case load_history json_load w of
           Inl err \<Rightarrow> (Inl err, w)
         | Inr history \<Rightarrow>
             (let cleaned_history = prune now history in
              if length cleaned_history \<noteq> length history then
                (Inr cleaned_history,
                 save_history json_dump cleaned_history
                   (print (''Cleaned up ''
                      @ str_int (int (length history) - int (length cleaned_history))
                      @ '' old entries'') w))
              else (load_history json_load w, w)))
      else (load_history json_load w, w))"

subsection \<open>The chart renderer\<close>

text \<open>
  \<^verbatim>\<open>datetime.strptime(s, '%Y-%m-%d')\<close>. The format is matched as the regular expression
  \<^verbatim>\<open>(\d\d\d\d)-(1[0-2]|0[1-9]|[1-9])-(3[0-1]|[1-2]\d|0[1-9]|[1-9]| [1-9])\<close> against the
  whole string, and the three numbers must then be a date of the calendar; anything
  else raises ValueError. Digits are the ASCII digits.
\<close>

definition is_digit :: "char \<Rightarrow> bool" where
  "is_digit c = (CHR ''0'' \<le> c \<and> c \<le> CHR ''9'')"

definition digit_val :: "char \<Rightarrow> nat" where
  "digit_val c = of_char c - 48"

fun month_field :: "string \<Rightarrow> nat option" where
  "month_field [a] = (if CHR ''1'' \<le> a \<and> a \<le> CHR ''9'' then Some (digit_val a) else None)"
| "month_field [a, b] =
     (if a = CHR ''1'' \<and> CHR ''0'' \<le> b \<and> b \<le> CHR ''2'' then Some (10 + digit_val b)
      else if a = CHR ''0'' \<and> CHR ''1'' \<le> b \<and> b \<le> CHR ''9'' then Some (digit_val b)
      else None)"
| "month_field _ = None"

fun day_field :: "string \<Rightarrow> nat option" where
  "day_field [a] = (if CHR ''1'' \<le> a \<and> a \<le> CHR ''9'' then Some (digit_val a) else None)"
| "day_field [a, b] =
     (if a = CHR ''3'' \<and> CHR ''0'' \<le> b \<and> b \<le> CHR ''1'' then Some (30 + digit_val b)
      else if CHR ''1'' \<le> a \<and> a \<le> CHR ''2'' \<and> is_digit b then Some (10 * digit_val a + digit_val b)
      else if (a = CHR ''0'' \<or> a = CHR '' '') \<and> CHR ''1'' \<le> b \<and> b \<le> CHR ''9''
        then Some (digit_val b)
      else None)"
| "day_field _ = None"

definition strptime_ymd :: "string \<Rightarrow> py_error + datetime" where
  "strptime_ymd s =
     (case s of
        y1 # y2 # y3 # y4 # sep # rest \<Rightarrow>
          if is_digit y1 \<and> is_digit y2 \<and> is_digit y3 \<and> is_digit y4 \<and> sep = CHR ''-'' then
            (case (month_field (takeWhile (\<lambda>c. c \<noteq> CHR ''-'') rest),
                   dropWhile (\<lambda>c. c \<noteq> CHR ''-'') rest) of
               (Some m, sep2 # day_text) \<Rightarrow>
                 (case day_field day_text of
                    Some d \<Rightarrow>
                      (let y = 1000 * digit_val y1 + 100 * digit_val y2
                                 + 10 * digit_val y3 + digit_val y4
                       in if 1 \<le> y \<and> d \<le> days_in_month y m
                          then Inr \<lparr>year = y, month = m, day = d, hour = 0, minute = 0,
                                    second = 0, microsecond = 0\<rparr>
                          else Inl ValueError)
                  | None \<Rightarrow> Inl ValueError)
             | _ \<Rightarrow> Inl ValueError)
          else Inl ValueError
      | _ \<Rightarrow> Inl ValueError)"

text \<open>Whether \<^verbatim>\<open>strptime\<close> accepts a date string.\<close>

definition parses :: "string \<Rightarrow> bool" where
  "parses s = (case strptime_ymd s of Inl err \<Rightarrow> False | Inr d \<Rightarrow> True)"

text \<open>
  The calendar day of a date string, as line 66 reads it: the number YYYYMMDD of the
  date that \<^verbatim>\<open>strptime\<close> returns, \<open>None\<close> when it raises. For calendar dates
  the numbers are ordered as the days are.
\<close>

definition date_num :: "datetime \<Rightarrow> nat" where
  "date_num dt = 10000 * year dt + 100 * month dt + day dt"

definition date_value :: "string \<Rightarrow> nat option" where
  "date_value s = (case strptime_ymd s of Inl err \<Rightarrow> None | Inr d \<Rightarrow> Some (date_num d))"

text \<open>Whether a date string is a date after the day numbered \<open>k\<close>.\<close>

definition day_after :: "nat \<Rightarrow> string \<Rightarrow> bool" where
  "day_after k s = (case date_value s of None \<Rightarrow> False | Some j \<Rightarrow> k < j)"

text \<open>
  Whether a date string is in the zero-padded form that line 37 writes: it is a date,
  and \<^verbatim>\<open>strftime('%Y-%m-%d')\<close> of that date gives the string back. (\<^verbatim>\<open>strptime\<close> also
  accepts months and days of one digit, which are not in this form.)
\<close>

definition padded :: "string \<Rightarrow> bool" where
  "padded s = (case strptime_ymd s of Inl err \<Rightarrow> False | Inr d \<Rightarrow> strftime_ymd d = s)"

text \<open>Line 66: the comprehension stops at the first date that does not parse.\<close>

fun parse_dates :: "history \<Rightarrow> py_error + datetime list" where
  "parse_dates [] = Inr []"
| "parse_dates (e # es) =
     (case strptime_ymd (date e) of
        Inl err \<Rightarrow> Inl err
      | Inr d \<Rightarrow> (case parse_dates es of Inl err \<Rightarrow> Inl err | Inr ds \<Rightarrow> Inr (d # ds)))"

text \<open>Lines 69 to 75. \<^verbatim>\<open>min\<close> and \<^verbatim>\<open>max\<close> are taken of a list that line 63 has found non-empty.\<close>

definition width :: int where
  "width = 1000"

definition height :: int where
  "height = 500"

definition margin :: int where
  "margin = 60"

definition py_min :: "int list \<Rightarrow> int" where
  "py_min xs = fold min (tl xs) (hd xs)"

definition py_max :: "int list \<Rightarrow> int" where
  "py_max xs = fold max (tl xs) (hd xs)"

definition min_rating :: "int list \<Rightarrow> int" where
  "min_rating ratings = py_min ratings - 50"

definition max_rating :: "int list \<Rightarrow> int" where
  "max_rating ratings = py_max ratings + 50"

definition rating_range :: "int list \<Rightarrow> int" where
  "rating_range ratings = max_rating ratings - min_rating ratings"

text \<open>\<^verbatim>\<open>a // b\<close> on integers: the floor of the quotient, ZeroDivisionError when \<open>b\<close> is 0.\<close>

definition floordiv :: "int \<Rightarrow> int \<Rightarrow> py_error + int" where
  "floordiv a b = (if b = 0 then Inl ZeroDivisionError else Inr (a div b))"

text \<open>\<^verbatim>\<open>sep.join(parts)\<close>.\<close>

fun join :: "string \<Rightarrow> string list \<Rightarrow> string" where
  "join sep [] = []"
| "join sep [x] = x"
| "join sep (x # y # ys) = x @ sep @ join sep (y # ys)"

text \<open>Lines 96 and 97: the coordinates of the \<open>i\<close>-th point of \<open>n\<close>.\<close>

definition point_xy :: "nat \<Rightarrow> int list \<Rightarrow> nat \<Rightarrow> int \<Rightarrow> py_error + int \<times> int" where
  "point_xy n ratings i r =
     (case floordiv (int i * (width - 2 * margin)) (int n - 1) of
        Inl err \<Rightarrow> Inl err
      | Inr qx \<Rightarrow>
          (case floordiv ((max_rating ratings - r) * (height - 2 * margin)) (rating_range ratings) of
             Inl err \<Rightarrow> Inl err
           | Inr qy \<Rightarrow> Inr (margin + qx, margin + qy)))"

text \<open>The loop of lines 95 to 98 over \<^verbatim>\<open>enumerate(zip(dates, ratings))\<close>.\<close>

fun points_loop :: "nat \<Rightarrow> int list \<Rightarrow> (nat \<times> int) list \<Rightarrow> py_error + (int \<times> int) list" where
  "points_loop n ratings [] = Inr []"
| "points_loop n ratings ((i, r) # rest) =
     (case point_xy n ratings i r of
        Inl err \<Rightarrow> Inl err
      | Inr p \<Rightarrow>
          (case points_loop n ratings rest of Inl err \<Rightarrow> Inl err | Inr ps \<Rightarrow> Inr (p # ps)))"

definition chart_points :: "datetime list \<Rightarrow> int list \<Rightarrow> py_error + (int \<times> int) list" where
  "chart_points dates ratings =
     points_loop (length dates) ratings (enumerate 0 (map snd (zip dates ratings)))"

text \<open>Line 98: \<^verbatim>\<open>f"{x},{y}"\<close>.\<close>

definition point_str :: "int \<times> int \<Rightarrow> string" where
  "point_str p = str_int (fst p) @ '','' @ str_int (snd p)"

text \<open>The opening of the document (lines 77 to 85).\<close>

definition svg_header :: "history \<Rightarrow> string" where
  \<open>svg_header history =
     ''<svg width="'' @ str_int width @ ''" height="'' @ str_int height
       @ ''" xmlns="http://www.w3.org/2000/svg">\<newline>''
     @ ''  <rect width="'' @ str_int width @ ''" height="'' @ str_int height
       @ ''" fill="#1e1e1e"/>\<newline>''
     @ ''  <text x="'' @ str_int (width div 2)
       @ ''" y="30" text-anchor="middle" fill="white" font-family="Arial" font-size="18" font-weight="bold">\<newline>''
     @ ''    Chess.com Rapid Rating - '' @ CHESS_USERNAME @ ''\<newline>''
     @ ''  </text>\<newline>''
     @ ''  <text x="'' @ str_int (width div 2)
       @ ''" y="55" text-anchor="middle" fill="#888" font-family="Arial" font-size="12">\<newline>''
     @ ''    Last 30 Days ('' @ str_int (int (length history)) @ '' days tracked)\<newline>''
     @ ''  </text>\<newline>''\<close>

text \<open>One round of the loop of lines 87 to 91: a grid line and its label.\<close>

definition grid_line :: "int list \<Rightarrow> int \<Rightarrow> string" where
  \<open>grid_line ratings i =
     (let y = margin + ((i * (height - 2 * margin)) div 5);
          rating_val = max_rating ratings - ((i * rating_range ratings) div 5)
      in ''  <line x1="'' @ str_int margin @ ''" y1="'' @ str_int y
           @ ''" x2="'' @ str_int (width - margin) @ ''" y2="'' @ str_int y
           @ ''" stroke="#333" stroke-width="1"/>\<newline>''
         @ ''  <text x="'' @ str_int (margin - 10) @ ''" y="'' @ str_int (y + 5)
           @ ''" text-anchor="end" fill="#888" font-family="Arial" font-size="12">''
           @ str_int rating_val @ ''</text>\<newline>'')\<close>

text \<open>
  One round of the loop of lines 104 to 106. The source splits the point's text at the
  comma, which gives back the two numbers as they were printed.
\<close>

definition circle :: "int \<times> int \<Rightarrow> string" where
  \<open>circle p = ''  <circle cx="'' @ str_int (fst p) @ ''" cy="'' @ str_int (snd p)
     @ ''" r="4" fill="#00ff88"/>\<newline>''\<close>

text \<open>Lines 93 to 111: the line through the points, or the single point.\<close>

definition svg_series :: "datetime list \<Rightarrow> int list \<Rightarrow> py_error + string" where
  \<open>svg_series dates ratings =
     (if length ratings > 1 then
        (case chart_points dates ratings of
           Inl err \<Rightarrow> Inl err
         | Inr pts \<Rightarrow>
             (let points = map point_str pts;
                  area_points = str_int margin @ '','' @ str_int (height - margin) @ '' ''
                    @ join '' '' points
                    @ '' '' @ str_int (width - margin) @ '','' @ str_int (height - margin)
              in Inr (''  <polygon points="'' @ area_points
                        @ ''" fill="#00ff88" fill-opacity="0.2"/>\<newline>''
                      @ ''  <polyline points="'' @ join '' '' points
                        @ ''" fill="none" stroke="#00ff88" stroke-width="3"/>\<newline>''
                      @ concat (map circle pts))))
      else
        (case floordiv ((max_rating ratings - hd ratings) * (height - 2 * margin))
                (rating_range ratings) of
           Inl err \<Rightarrow> Inl err
         | Inr q \<Rightarrow>
             (let x = width div 2;
                  y = margin + q
              in Inr (''  <circle cx="'' @ str_int x @ ''" cy="'' @ str_int y
                        @ ''" r="6" fill="#00ff88"/>\<newline>''
                      @ ''  <text x="'' @ str_int x @ ''" y="'' @ str_int (y - 15)
                        @ ''" text-anchor="middle" fill="#00ff88" font-family="Arial" font-size="14" font-weight="bold">''
                        @ str_int (hd ratings) @ ''</text>\<newline>''))))\<close>

text \<open>Lines 113 to 126: the figures in the corner.\<close>

definition svg_stats :: "int list \<Rightarrow> string" where
  \<open>svg_stats ratings =
     (let current_rating = last ratings in
      if length ratings > 1 then
        (let highest = py_max ratings;
             lowest = py_min ratings;
             change = current_rating - hd ratings;
             change_text = (if change \<ge> 0 then ''+'' @ str_int change else str_int change);
             change_color = (if change \<ge> 0 then ''#00ff88'' else ''#ff4444'')
         in ''  <text x="'' @ str_int (width - 10) @ ''" y="'' @ str_int (height - 80)
              @ ''" text-anchor="end" fill="#00ff88" font-family="Arial" font-size="16" font-weight="bold">Current: ''
              @ str_int current_rating @ ''</text>\<newline>''
            @ ''  <text x="'' @ str_int (width - 10) @ ''" y="'' @ str_int (height - 60)
              @ ''" text-anchor="end" fill="#888" font-family="Arial" font-size="12">High: ''
              @ str_int highest @ ''</text>\<newline>''
            @ ''  <text x="'' @ str_int (width - 10) @ ''" y="'' @ str_int (height - 45)
              @ ''" text-anchor="end" fill="#888" font-family="Arial" font-size="12">Low: ''
              @ str_int lowest @ ''</text>\<newline>''
            @ ''  <text x="'' @ str_int (width - 10) @ ''" y="'' @ str_int (height - 25)
              @ ''" text-anchor="end" fill="'' @ change_color
              @ ''" font-family="Arial" font-size="12" font-weight="bold">Change: ''
              @ change_text @ ''</text>\<newline>'')
      else
        ''  <text x="'' @ str_int (width - 10) @ ''" y="'' @ str_int (height - 25)
          @ ''" text-anchor="end" fill="#00ff88" font-family="Arial" font-size="16" font-weight="bold">Current: ''
          @ str_int current_rating @ ''</text>\<newline>'')\<close>

text \<open>The whole text of the chart, for a non-empty history whose dates have parsed.\<close>

definition svg_content :: "history \<Rightarrow> datetime list \<Rightarrow> py_error + string" where
  "svg_content history dates =
     (let ratings = map rating history in
      case svg_series dates ratings of
        Inl err \<Rightarrow> Inl err
      | Inr series \<Rightarrow>
          Inr (svg_header history @ concat (map (grid_line ratings) [0, 1, 2, 3, 4, 5])
               @ series @ svg_stats ratings @ ''</svg>''))"

text \<open>
  \<^verbatim>\<open>create_svg_graph\<close> (lines 62 to 133): \<open>False\<close> for the empty history, otherwise
  the chart is written to \<open>GRAPH_FILE\<close> and the result is \<open>True\<close>, unless an exception
  ends the call before the file is opened.
\<close>

definition create_svg_graph :: "history \<Rightarrow> world \<Rightarrow> (py_error + bool) \<times> world" where
  "create_svg_graph history w =
     (if length history < 1 then (Inr False, w)
      else
        (case parse_dates history of
           Inl err \<Rightarrow> (Inl err, w)
         | Inr dates \<Rightarrow>
             (case svg_content history dates of
                Inl err \<Rightarrow> (Inl err, w)
              | Inr text \<Rightarrow> (Inr True, write_file GRAPH_FILE text w))))"

subsection \<open>The report writer\<close>

text \<open>The text of lines 142 to 152.\<close>

definition readme_content :: "datetime \<Rightarrow> history \<Rightarrow> string" where
  \<open>readme_content now history =
     (let current = rating (last history);
          days_tracked = int (length history)
      in ''# Chess Rating Tracker\<newline>''
         @ ''\<newline>''
         @ ''## Rapid Rating: '' @ str_int current @ ''\<newline>''
         @ ''\<newline>''
         @ ''![Rating Trend]('' @ GRAPH_FILE @ '')\<newline>''
         @ ''\<newline>''
         @ ''**Days Tracked:** '' @ str_int days_tracked @ ''  \<newline>''
         @ ''**Last Updated:** '' @ strftime_ymd_hm now @ ''\<newline>''
         @ ''\<newline>''
         @ ''*This graph shows only real rating data. Run daily to build up your historical trend!*\<newline>'')\<close>

text \<open>\<^verbatim>\<open>update_readme\<close> (lines 135 to 155); its first argument is not used.\<close>

definition update_readme :: "datetime \<Rightarrow> int \<Rightarrow> history \<Rightarrow> world \<Rightarrow> world" where
  "update_readme now current_rating history w =
     (if history = [] then w else write_file README_FILE (readme_content now history) w)"

subsection \<open>The run\<close>

text \<open>The format \<^verbatim>\<open>{change:+d}\<close>: the sign is always printed.\<close>

definition fmt_signed :: "int \<Rightarrow> string" where
  "fmt_signed i = (if i \<ge> 0 then ''+'' @ str_int i else str_int i)"

text \<open>Lines 192 to 201, after the chart has been written.\<close>

definition report :: "datetime \<Rightarrow> int \<Rightarrow> history \<Rightarrow> world \<Rightarrow> world" where
  "report now current_rating history w =
     (let w1 = update_readme now current_rating history w;
          w2 = print (''Graph created with '' @ str_int (int (length history)) @ '' data points!'') w1;
          w3 = print (''Files updated: '' @ GRAPH_FILE @ '', rating_history.json, README.md'') w2
      in if length history > 1 then
           (let highest = py_max (map rating history);
                lowest = py_min (map rating history);
                change = current_rating - rating (hd history)
            in print (''Stats: High '' @ str_int highest @ '', Low '' @ str_int lowest
                      @ '', Change '' @ fmt_signed change) w3)
         else print ''Run this script daily to build up your rating history!'' w3)"

text \<open>
  \<^verbatim>\<open>main\<close> (lines 172 to 203). The result is the exception that ended the run, if
  any, and the world the run leaves behind.
\<close>

definition main ::
  "(string \<Rightarrow> py_error + history) \<Rightarrow> (history \<Rightarrow> string) \<Rightarrow> datetime \<Rightarrow> response \<Rightarrow> world
     \<Rightarrow> py_error option \<times> world" where
  "main json_load json_dump now resp w =
     (let w1 = print (''Fetching rating data for '' @ CHESS_USERNAME @ ''...'') w in
      case fetch_current_rating resp w1 of
        (None, w2) \<Rightarrow> (None, print ''Could not fetch current rating'' w2)
      | (Some current_rating, w2) \<Rightarrow>
          (let w3 = print (''Current rating: '' @ str_int current_rating) w2 in
           case cleanup_old_data json_load json_dump now w3 of
             (Inl err, w4) \<Rightarrow> (Some err, w4)
           | (Inr history0, w4) \<Rightarrow>
               (let w5 = print (''Existing data points: '' @ str_int (int (length history0))) w4;
                    history = add_today_rating now history0 (Some current_rating);
                    w6 = save_history json_dump history w5;
                    w7 = print (''Total data points: '' @ str_int (int (length history))) w6
                in case create_svg_graph history w7 of
                     (Inl err, w8) \<Rightarrow> (Some err, w8)
                   | (Inr True, w8) \<Rightarrow> (None, report now current_rating history w8)
                   | (Inr False, w8) \<Rightarrow> (None, print ''Could not create graph'' w8))))"

subsection \<open>Sample inputs\<close>

text \<open>
  A clock reading, a history in file order (one entry older than 30 days), a codec that
  knows three documents, two working directories and a response of the API; the
  examples below run the program on them.
\<close>

definition sample_now :: datetime where
  "sample_now = \<lparr>year = 2026, month = 11, day = 3, hour = 9, minute = 30, second = 0,
     microsecond = 0\<rparr>"

definition sample_history :: history where
  "sample_history =
     [\<lparr>date = ''2026-10-20'', rating = 1450, updated = ''2026-10-20T09:30:00''\<rparr>,
      \<lparr>date = ''2026-09-01'', rating = 1400, updated = ''2026-09-01T09:30:00''\<rparr>]"

text \<open>The sample history after a run at \<open>sample_now\<close> that fetched 1500.\<close>

definition updated_history :: history where
  "updated_history =
     [\<lparr>date = ''2026-10-20'', rating = 1450, updated = ''2026-10-20T09:30:00''\<rparr>,
      \<lparr>date = ''2026-11-03'', rating = 1500, updated = ''2026-11-03T09:30:00''\<rparr>]"

text \<open>
  A history written while the clock was a month ahead: 30 entries, dated 1 to 30
  December 2026, all later than \<open>sample_now\<close>.
\<close>

definition future_history :: history where
  "future_history =
     map (\<lambda>n. \<lparr>date = ''2026-12-'' @ pad2 n, rating = 1600, updated = ''2026-12-01T09:30:00''\<rparr>)
       [1, 2, 3, 4, 5, 6, 7, 8, 9, 10, 11, 12, 13, 14, 15, 16, 17, 18, 19, 20,
        21, 22, 23, 24, 25, 26, 27, 28, 29, 30]"

text \<open>
  Two histories whose date is written without the zero padding: 30 September 2026,
  and 3 November 2026, the day of \<open>sample_now\<close>.
\<close>

definition unpadded_history :: history where
  "unpadded_history =
     [\<lparr>date = ''2026-9-30'', rating = 1400, updated = ''2026-09-30T09:30:00''\<rparr>]"

definition unpadded_today :: history where
  "unpadded_today =
     [\<lparr>date = ''2026-11-3'', rating = 1490, updated = ''2026-11-03T08:00:00''\<rparr>]"

text \<open>A history as a hand edit could leave it: the date is written with slashes.\<close>

definition edited_history :: history where
  "edited_history =
     [\<lparr>date = ''2026/11/02'', rating = 1480, updated = ''2026-11-02T09:30:00''\<rparr>]"

definition sample_json_load :: "string \<Rightarrow> py_error + history" where
  "sample_json_load text =
     (if text = ''[]'' then Inr []
      else if text = ''[stored]'' then Inr (rev sample_history)
      else if text = ''[edited]'' then Inr edited_history
      else Inl JSONDecodeError)"

definition sample_json_dump :: "history \<Rightarrow> string" where
  "sample_json_dump history = (if history = [] then ''[]'' else ''[saved]'')"

definition sample_world :: world where
  "sample_world = \<lparr>files = [HISTORY_FILE \<mapsto> ''[stored]''], stdout = []\<rparr>"

definition edited_world :: world where
  "edited_world = \<lparr>files = [HISTORY_FILE \<mapsto> ''[edited]''], stdout = []\<rparr>"

definition sample_response :: response where
  "sample_response = Decoded [''chess_rapid'' \<mapsto> [''last'' \<mapsto> [''rating'' \<mapsto> 1500]]]"

section \<open>Properties\<close>

subsection \<open>Evaluating the samples\<close>

lemma minus_days_numeral:
  "minus_days (numeral k) dt = minus_days (pred_numeral k) (prev_day dt)"
  by (simp add: numeral_eq_Suc)

lemmas fmt_defs = strftime_ymd_def isoformat_def pad4_def pad2_def pad6_def digit_char_def

lemma today_sample: "strftime_ymd sample_now = ''2026-11-03''"
  by (simp add: sample_now_def fmt_defs)

lemma cutoff_sample: "cutoff_str sample_now = ''2026-10-04''"
  by (simp add: sample_now_def cutoff_str_def minus_days_numeral prev_day_def
      days_in_month_def is_leap_def fmt_defs)

lemma add_sample:
  "map date (add_today_rating sample_now sample_history (Some 1500))
     = [''2026-10-20'', ''2026-11-03'']"
  by (simp add: add_today_rating_def cap30_def prune_def cutoff_sample upsert_today_def
      today_sample sample_history_def)

lemma load_sample: "load_history sample_json_load sample_world = Inr (rev sample_history)"
  by (simp add: load_history_def sample_world_def sample_json_load_def)

subsection \<open>The history store\<close>

lemma length_cap30: "length (cap30 h) \<le> 30"
  by (simp add: cap30_def)

lemma set_cap30: "set (cap30 h) \<subseteq> set h"
  by (auto simp: cap30_def dest: in_set_dropD)

lemma set_prune: "set (prune now h) = {e \<in> set h. cutoff_str now \<le> date e}"
  by (simp add: prune_def)

text \<open>
  C8: with no rating, \<^verbatim>\<open>add_today_rating\<close> returns the history it was given: nothing is
  added, updated, sorted or pruned.
\<close>

theorem add_today_rating_None: "add_today_rating now history None = history"
  by (simp add: add_today_rating_def)

lemma sorted_cap30: "sorted (map date h) \<Longrightarrow> sorted (map date (cap30 h))"
  by (simp add: cap30_def drop_map [symmetric])

lemma sorted_prune: "sorted (map date h) \<Longrightarrow> sorted (map date (prune now h))"
  by (simp add: prune_def sorted_filter)

lemma cleanup_sample:
  "fst (cleanup_old_data sample_json_load sample_json_dump sample_now sample_world)
     = Inr [\<lparr>date = ''2026-10-20'', rating = 1450, updated = ''2026-10-20T09:30:00''\<rparr>]"
proof -
  have "files sample_world HISTORY_FILE \<noteq> None"
    by (simp add: sample_world_def)
  then show ?thesis
    by (simp add: cleanup_old_data_def load_sample prune_def cutoff_sample sample_history_def
        Let_def)
qed

subsection \<open>Loading the history\<close>

text \<open>
  C5: \<^verbatim>\<open>load_history\<close> returns the empty list when the history file does not exist,
  and what the JSON decoder makes of the file's text when it does.
\<close>

theorem load_history_file:
  "(files w HISTORY_FILE = None \<longrightarrow> load_history json_load w = Inr [])
   \<and> (\<forall>text. files w HISTORY_FILE = Some text \<longrightarrow> load_history json_load w = json_load text)"
  by (simp add: load_history_def)

theorem load_history_file_witness:
  "files (sample_world\<lparr>files := Map.empty\<rparr>) HISTORY_FILE = None
   \<and> load_history sample_json_load (sample_world\<lparr>files := Map.empty\<rparr>) = Inr []
   \<and> files sample_world HISTORY_FILE = Some ''[stored]''
   \<and> load_history sample_json_load sample_world = Inr (rev sample_history)"
proof -
  have a: "files (sample_world\<lparr>files := Map.empty\<rparr>) HISTORY_FILE = None"
    by simp
  have b: "files sample_world HISTORY_FILE = Some ''[stored]''"
    by (simp add: sample_world_def)
  have c: "sample_json_load ''[stored]'' = Inr (rev sample_history)"
    by (simp add: sample_json_load_def)
  show ?thesis
    using load_history_file [of "sample_world\<lparr>files := Map.empty\<rparr>" sample_json_load]
      load_history_file [of sample_world sample_json_load] a b c
    by simp
qed

subsection \<open>A failed fetch\<close>

lemma fetch_files: "files (snd (fetch_current_rating resp w)) = files w"
  by (simp add: fetch_current_rating_def print_def split: response.split option.split)

lemma fetch_value: "fst (fetch_current_rating resp w) = fst (fetch_current_rating resp w')"
  by (simp add: fetch_current_rating_def split: response.split option.split)

text \<open>
  \<^verbatim>\<open>fetch_current_rating\<close> returns \<open>None\<close> exactly when the request or the decoding
  failed or one of the three nested keys is missing.
\<close>

lemma fetch_None_iff:
  "fst (fetch_current_rating resp w) = None \<longleftrightarrow>
     (case resp of
        Failed e \<Rightarrow> True
      | Decoded data \<Rightarrow>
          (case data ''chess_rapid'' of
             None \<Rightarrow> True
           | Some rapid \<Rightarrow>
               (case rapid ''last'' of None \<Rightarrow> True | Some g \<Rightarrow> g ''rating'' = None)))"
  by (simp add: fetch_current_rating_def split: response.split option.split)

text \<open>
  C3: when \<^verbatim>\<open>fetch_current_rating\<close> returns \<open>None\<close>, the run ends without an
  exception, its last printed line is the message, and every file (the history, the
  chart and the README among them) is what it was before the run.
\<close>

theorem main_fetch_failed:
  assumes "fst (fetch_current_rating resp w) = None"
  shows "fst (main json_load json_dump now resp w) = None
    \<and> files (snd (main json_load json_dump now resp w)) = files w
    \<and> last (stdout (snd (main json_load json_dump now resp w)))
        = ''Could not fetch current rating''"
proof -
  define w1 where "w1 = print (''Fetching rating data for '' @ CHESS_USERNAME @ ''...'') w"
  obtain v w2 where f: "fetch_current_rating resp w1 = (v, w2)"
    by (cases "fetch_current_rating resp w1")
  have v: "v = None"
    using assms f fetch_value [of resp w w1] by simp
  have w2: "files w2 = files w"
    using f fetch_files [of resp w1] by (simp add: w1_def print_def)
  have "main json_load json_dump now resp w
          = (None, print ''Could not fetch current rating'' w2)"
    unfolding main_def Let_def w1_def [symmetric] f v by simp
  then show ?thesis
    using w2 by (simp add: print_def)
qed

theorem main_fetch_failed_witness:
  "fst (fetch_current_rating (Failed ''timed out'') sample_world) = None
   \<and> fst (main sample_json_load sample_json_dump sample_now (Failed ''timed out'') sample_world)
       = None
   \<and> files (snd (main sample_json_load sample_json_dump sample_now (Failed ''timed out'')
        sample_world)) = files sample_world
   \<and> last (stdout (snd (main sample_json_load sample_json_dump sample_now
        (Failed ''timed out'') sample_world))) = ''Could not fetch current rating''"
proof -
  have a: "fst (fetch_current_rating (Failed ''timed out'') sample_world) = None"
    by (simp add: fetch_current_rating_def)
  show ?thesis
    using main_fetch_failed [OF a, of sample_json_load sample_json_dump sample_now] a
    by simp
qed

subsection \<open>The chart\<close>

lemma py_min_Min: "xs \<noteq> [] \<Longrightarrow> py_min xs = Min (set xs)"
  using Min.set_eq_fold [of "hd xs" "tl xs"] by (cases xs) (simp_all add: py_min_def)

lemma py_max_Max: "xs \<noteq> [] \<Longrightarrow> py_max xs = Max (set xs)"
  using Max.set_eq_fold [of "hd xs" "tl xs"] by (cases xs) (simp_all add: py_max_def)

lemma py_min_le: "r \<in> set xs \<Longrightarrow> py_min xs \<le> r"
  by (cases "xs = []") (simp_all add: py_min_Min)

lemma py_max_ge: "r \<in> set xs \<Longrightarrow> r \<le> py_max xs"
  by (cases "xs = []") (simp_all add: py_max_Max)

lemma rating_range_ge: "ratings \<noteq> [] \<Longrightarrow> 100 \<le> rating_range ratings"
proof -
  assume "ratings \<noteq> []"
  then have "hd ratings \<in> set ratings" by simp
  then have "py_min ratings \<le> py_max ratings"
    using py_min_le py_max_ge by (meson order_trans)
  then show ?thesis
    by (simp add: rating_range_def max_rating_def min_rating_def)
qed

lemma rating_offset:
  assumes "r \<in> set ratings"
  shows "50 \<le> max_rating ratings - r" and "max_rating ratings - r \<le> rating_range ratings - 50"
  using py_min_le [OF assms] py_max_ge [OF assms]
  by (simp_all add: rating_range_def max_rating_def min_rating_def)

lemma point_xy_ok:
  assumes "2 \<le> n" and "ratings \<noteq> []"
  shows "point_xy n ratings i r =
     Inr (margin + (int i * (width - 2 * margin)) div (int n - 1),
          margin + ((max_rating ratings - r) * (height - 2 * margin)) div rating_range ratings)"
  using assms rating_range_ge [OF assms(2)] by (simp add: point_xy_def floordiv_def)

lemma points_loop_ok:
  assumes "2 \<le> n" and "ratings \<noteq> []"
  shows "points_loop n ratings irs =
     Inr (map (\<lambda>(i, r). (margin + (int i * (width - 2 * margin)) div (int n - 1),
            margin + ((max_rating ratings - r) * (height - 2 * margin)) div rating_range ratings))
          irs)"
  by (induction irs) (auto simp: point_xy_ok [OF assms])

lemma zip_snd_same: "length dates = length ratings \<Longrightarrow> map snd (zip dates ratings) = ratings"
  by simp

lemma x_step:
  fixes i j :: nat and n :: nat
  assumes "i < j" and "2 \<le> n" and "n \<le> 881"
  shows "(int i * 880) div (int n - 1) < (int j * 880) div (int n - 1)"
proof -
  have pos: "0 < int n - 1" using assms(2) by simp
  have "int i * 880 + (int n - 1) \<le> int j * 880"
    using assms by simp
  then have "(int i * 880 + (int n - 1)) div (int n - 1) \<le> (int j * 880) div (int n - 1)"
    using pos by (intro zdiv_mono1)
  moreover have "(int i * 880 + (int n - 1)) div (int n - 1) = (int i * 880) div (int n - 1) + 1"
    using pos by (intro div_add_self2) simp
  ultimately show ?thesis by simp
qed

lemma y_bounds:
  assumes "r \<in> set ratings"
  shows "0 \<le> ((max_rating ratings - r) * 380) div rating_range ratings"
    and "((max_rating ratings - r) * 380) div rating_range ratings \<le> 380"
proof -
  have ne: "ratings \<noteq> []" using assms by auto
  have pos: "0 < rating_range ratings" using rating_range_ge [OF ne] by simp
  have lo: "0 \<le> max_rating ratings - r" using rating_offset(1) [OF assms] by simp
  have hi: "max_rating ratings - r \<le> rating_range ratings" using rating_offset(2) [OF assms] by simp
  show "0 \<le> ((max_rating ratings - r) * 380) div rating_range ratings"
    using lo pos by (simp add: pos_imp_zdiv_nonneg_iff)
  have "(max_rating ratings - r) * 380 \<le> 380 * rating_range ratings"
    using hi by simp
  then have "((max_rating ratings - r) * 380) div rating_range ratings
      \<le> (380 * rating_range ratings) div rating_range ratings"
    using pos by (intro zdiv_mono1)
  then show "((max_rating ratings - r) * 380) div rating_range ratings \<le> 380"
    using pos by simp
qed

lemma chart_points_ok:
  assumes "2 \<le> length ratings" and "length dates = length ratings"
  shows "chart_points dates ratings =
     Inr (map (\<lambda>(i, r). (margin + (int i * (width - 2 * margin)) div (int (length ratings) - 1),
            margin + ((max_rating ratings - r) * (height - 2 * margin)) div rating_range ratings))
          (enumerate 0 ratings))"
proof -
  have ne: "ratings \<noteq> []" using assms(1) by auto
  show ?thesis
    using assms points_loop_ok [OF assms(1) ne, of "enumerate 0 ratings"]
    by (simp add: chart_points_def)
qed

text \<open>
  C6: for a history of 2 to 30 entries, the points of the chart are computed (none of
  the divisions fails), one per entry; their x-coordinates increase strictly in list
  order, and every y-coordinate lies in the chart area, from \<open>margin\<close> = 60 to
  \<open>height - margin\<close> = 440. (\<open>dates\<close> is the list of parsed dates, as long as the
  history.)
\<close>

theorem chart_coordinates:
  assumes "2 \<le> length history" and "length history \<le> 30"
    and "length dates = length history"
  shows "\<exists>pts. chart_points dates (map rating history) = Inr pts
    \<and> length pts = length history
    \<and> sorted_wrt (<) (map fst pts)
    \<and> (\<forall>p \<in> set pts. margin \<le> snd p \<and> snd p \<le> height - margin)
    \<and> margin = 60 \<and> height - margin = 440"
proof -
  define ratings where "ratings = map rating history"
  define n where "n = length ratings"
  define f where "f = (\<lambda>(i :: nat, r). (margin + (int i * (width - 2 * margin)) div (int n - 1),
            margin + ((max_rating ratings - r) * (height - 2 * margin)) div rating_range ratings))"
  define pts where "pts = map f (enumerate 0 ratings)"
  have len: "2 \<le> n" "n \<le> 30" "length dates = length ratings"
    using assms by (simp_all add: n_def ratings_def)
  have cp: "chart_points dates ratings = Inr pts"
    using chart_points_ok [of ratings dates] len by (simp add: pts_def f_def n_def)
  have l: "length pts = length history"
    by (simp add: pts_def ratings_def)
  have "map fst pts
      = map ((\<lambda>i. margin + (int i * 880) div (int n - 1)) \<circ> fst) (enumerate 0 ratings)"
    by (simp add: pts_def f_def width_def margin_def split_def comp_def)
  also have "\<dots> = map (\<lambda>i. margin + (int i * 880) div (int n - 1))
      (map fst (enumerate 0 ratings))"
    by (simp only: map_map)
  finally have xs: "map fst pts = map (\<lambda>i. margin + (int i * 880) div (int n - 1)) [0..<n]"
    by (simp add: n_def)
  have "sorted_wrt (\<lambda>i j. margin + (int i * 880) div (int n - 1)
                         < margin + (int j * 880) div (int n - 1)) [0..<n]"
  proof (rule sorted_wrt_mono_rel [of "[0..<n]" "(<)"])
    fix i j :: nat
    assume "i < j"
    then show "margin + (int i * 880) div (int n - 1) < margin + (int j * 880) div (int n - 1)"
      using x_step [of i j n] len by simp
  qed simp
  then have sx: "sorted_wrt (<) (map fst pts)"
    by (simp add: xs sorted_wrt_map)
  have sy: "\<forall>p \<in> set pts. margin \<le> snd p \<and> snd p \<le> height - margin"
  proof
    fix p assume "p \<in> set pts"
    then obtain i r where ir: "(i, r) \<in> set (enumerate 0 ratings)" and p: "p = f (i, r)"
      by (auto simp: pts_def)
    have "r \<in> set ratings"
      using ir by (auto simp: in_set_enumerate_eq)
    then show "margin \<le> snd p \<and> snd p \<le> height - margin"
      using y_bounds [of r ratings] by (simp add: p f_def height_def margin_def)
  qed
  show ?thesis
    using cp l sx sy by (auto simp: ratings_def margin_def height_def)
qed

lemma ratings_sample: "map rating sample_history = [1450, 1400]"
  by (simp add: sample_history_def)

lemma range_sample: "rating_range [1450, 1400] = 150" "max_rating [1450, 1400] = 1500"
  by (simp_all add: rating_range_def max_rating_def min_rating_def py_max_def py_min_def)

lemma points_sample:
  "chart_points [sample_now, sample_now] (map rating sample_history) = Inr [(60, 186), (940, 313)]"
  by (simp add: ratings_sample chart_points_def enumerate_eq_zip point_xy_def floordiv_def
      range_sample width_def height_def margin_def)

theorem chart_coordinates_witness:
  "2 \<le> length sample_history \<and> length sample_history \<le> 30
   \<and> length [sample_now, sample_now] = length sample_history
   \<and> chart_points [sample_now, sample_now] (map rating sample_history)
       = Inr [(60, 186), (940, 313)]
   \<and> (\<exists>pts. chart_points [sample_now, sample_now] (map rating sample_history) = Inr pts
        \<and> length pts = length sample_history
        \<and> sorted_wrt (<) (map fst pts)
        \<and> (\<forall>p \<in> set pts. margin \<le> snd p \<and> snd p \<le> height - margin)
        \<and> margin = 60 \<and> height - margin = 440)"
proof -
  have a: "2 \<le> length sample_history" "length sample_history \<le> 30"
    "length [sample_now, sample_now] = length sample_history"
    by (simp_all add: sample_history_def)
  show ?thesis
    using chart_coordinates [OF a] a points_sample by simp
qed

lemma strptime_error: "strptime_ymd s = Inl err \<Longrightarrow> err = ValueError"
  by (auto simp: strptime_ymd_def Let_def split: list.splits if_splits option.splits prod.splits)

lemma parse_dates_error: "parse_dates h = Inl err \<Longrightarrow> err = ValueError"
  by (induction h) (auto split: sum.splits dest: strptime_error)

lemma parse_dates_length: "parse_dates h = Inr ds \<Longrightarrow> length ds = length h"
  by (induction h arbitrary: ds) (auto split: sum.splits)

lemma svg_series_ok:
  assumes "ratings \<noteq> []" and "length dates = length ratings"
  shows "\<exists>s. svg_series dates ratings = Inr s"
proof (cases "length ratings > 1")
  case True
  then show ?thesis
    using chart_points_ok [of ratings dates] assms(2) by (simp add: svg_series_def Let_def)
next
  case False
  then show ?thesis
    using rating_range_ge [OF assms(1)] by (simp add: svg_series_def floordiv_def Let_def)
qed

lemma svg_content_ok:
  assumes "history \<noteq> []" and "length dates = length history"
  shows "\<exists>text. svg_content history dates = Inr text"
proof -
  obtain s where "svg_series dates (map rating history) = Inr s"
    using svg_series_ok [of "map rating history" dates] assms by auto
  then show ?thesis
    by (simp add: svg_content_def Let_def)
qed

text \<open>
  C9: for a non-empty history the range of ratings is at least 100, the divisor
  \<^verbatim>\<open>len(dates) - 1\<close> is positive where it is used, the series is computed without a
  failing division, and \<^verbatim>\<open>create_svg_graph\<close> never ends in ZeroDivisionError.
\<close>

theorem no_division_by_zero:
  assumes "history \<noteq> []"
  shows "100 \<le> rating_range (map rating history)
    \<and> (1 < length history \<longrightarrow> 0 < int (length history) - 1)
    \<and> (\<forall>dates. length dates = length history
          \<longrightarrow> (\<exists>s. svg_series dates (map rating history) = Inr s))
    \<and> fst (create_svg_graph history w) \<noteq> Inl ZeroDivisionError"
proof (intro conjI)
  show "100 \<le> rating_range (map rating history)"
    using assms by (simp add: rating_range_ge)
  show "1 < length history \<longrightarrow> 0 < int (length history) - 1"
    by simp
  show "\<forall>dates. length dates = length history
          \<longrightarrow> (\<exists>s. svg_series dates (map rating history) = Inr s)"
    using assms svg_series_ok [of "map rating history"] by simp
  show "fst (create_svg_graph history w) \<noteq> Inl ZeroDivisionError"
  proof (cases "parse_dates history")
    case (Inl err)
    then show ?thesis
      using assms parse_dates_error [OF Inl] by (simp add: create_svg_graph_def)
  next
    case (Inr dates)
    then obtain svg where "svg_content history dates = Inr svg"
      using svg_content_ok [OF assms, of dates] parse_dates_length [OF Inr] by auto
    then show ?thesis
      using assms Inr by (simp add: create_svg_graph_def)
  qed
qed

theorem no_division_by_zero_witness:
  "sample_history \<noteq> []
   \<and> 100 \<le> rating_range (map rating sample_history)
   \<and> 1 < length sample_history \<and> 0 < int (length sample_history) - 1
   \<and> (\<exists>s. svg_series [sample_now, sample_now] (map rating sample_history) = Inr s)
   \<and> fst (create_svg_graph sample_history sample_world) \<noteq> Inl ZeroDivisionError"
proof -
  have a: "sample_history \<noteq> []" "length [sample_now, sample_now] = length sample_history"
    by (simp_all add: sample_history_def)
  show ?thesis
    using no_division_by_zero [OF a(1), of sample_world] a by auto
qed

subsection \<open>The README\<close>

text \<open>
  C7: for a non-empty history, \<^verbatim>\<open>update_readme\<close> writes a README that contains the
  rating of the last entry as the current rating, the length of the history as the days
  tracked, and the link to the chart by its relative path \<^verbatim>\<open>rating_trend.svg\<close>.
\<close>

theorem update_readme_content:
  assumes "history \<noteq> []"
  shows \<open>files (update_readme now current_rating history w) README_FILE
           = Some (readme_content now history)
    \<and> sublist (''## Rapid Rating: '' @ str_int (rating (last history)) @ ''\<newline>'')
        (readme_content now history)
    \<and> sublist (''**Days Tracked:** '' @ str_int (int (length history)) @ ''  \<newline>'')
        (readme_content now history)
    \<and> sublist ''![Rating Trend](rating_trend.svg)'' (readme_content now history)\<close>
proof (intro conjI)
  show "files (update_readme now current_rating history w) README_FILE
           = Some (readme_content now history)"
    using assms by (simp add: update_readme_def write_file_def)
  show "sublist (''## Rapid Rating: '' @ str_int (rating (last history)) @ ''\<newline>'')
        (readme_content now history)"
    unfolding sublist_def readme_content_def Let_def
    by (rule exI [of _ "''# Chess Rating Tracker\<newline>\<newline>''"], rule exI) simp
  show "sublist (''**Days Tracked:** '' @ str_int (int (length history)) @ ''  \<newline>'')
        (readme_content now history)"
    unfolding sublist_def readme_content_def Let_def
    by (rule exI [of _ "''# Chess Rating Tracker\<newline>\<newline>## Rapid Rating: ''
          @ str_int (rating (last history)) @ ''\<newline>\<newline>![Rating Trend]('' @ GRAPH_FILE @ '')\<newline>\<newline>''"],
        rule exI) simp
  show "sublist ''![Rating Trend](rating_trend.svg)'' (readme_content now history)"
    unfolding sublist_def readme_content_def Let_def GRAPH_FILE_def
    by (rule exI [of _ "''# Chess Rating Tracker\<newline>\<newline>## Rapid Rating: ''
          @ str_int (rating (last history)) @ ''\<newline>\<newline>''"],
        rule exI) simp
qed

lemma str_int_sample: "str_int 1400 = ''1400''" "str_int 2 = ''2''"
  by (simp_all add: str_int_def str_nat.simps digit_char_def)

theorem update_readme_content_witness:
  \<open>sample_history \<noteq> []
   \<and> files (update_readme sample_now 1500 sample_history sample_world) README_FILE
        = Some (readme_content sample_now sample_history)
   \<and> sublist ''## Rapid Rating: 1400\<newline>'' (readme_content sample_now sample_history)
   \<and> sublist ''**Days Tracked:** 2  \<newline>'' (readme_content sample_now sample_history)
   \<and> sublist ''![Rating Trend](rating_trend.svg)'' (readme_content sample_now sample_history)\<close>
proof -
  have a: "sample_history \<noteq> []"
    by (simp add: sample_history_def)
  have b: "rating (last sample_history) = 1400" "int (length sample_history) = 2"
    by (simp_all add: sample_history_def)
  show ?thesis
    using update_readme_content [OF a, of sample_now 1500 sample_world] a
    by (simp add: b str_int_sample)
qed

subsection \<open>Dates as strings\<close>

text \<open>
  The date strings that \<^verbatim>\<open>strftime\<close> writes are ordered as the dates are, so the
  cutoff string never exceeds today's; and \<^verbatim>\<open>strptime\<close> reads them back.
\<close>

lemma digit_cases:
  assumes "k < (10::nat)"
  obtains "k = 0" | "k = 1" | "k = 2" | "k = 3" | "k = 4" | "k = 5" | "k = 6" | "k = 7" | "k = 8" | "k = 9"
  using assms by atomize_elim arith

lemma of_char_digit: "k < 10 \<Longrightarrow> of_char (digit_char k) = (48 + k :: nat)"
  by (erule digit_cases) (simp_all add: digit_char_def)

lemma digit_char_le_iff: "a < 10 \<Longrightarrow> b < 10 \<Longrightarrow> digit_char a \<le> digit_char b \<longleftrightarrow> a \<le> b"
  by (simp add: less_eq_char_def of_char_digit)

lemma digit_char_less_iff: "a < 10 \<Longrightarrow> b < 10 \<Longrightarrow> digit_char a < digit_char b \<longleftrightarrow> a < b"
  by (simp add: less_char_def of_char_digit)

lemma digit_char_eq_iff: "a < 10 \<Longrightarrow> b < 10 \<Longrightarrow> digit_char a = digit_char b \<longleftrightarrow> a = b"
  using digit_char_le_iff [of a b] digit_char_le_iff [of b a] by auto

lemma is_digit_digit: "k < 10 \<Longrightarrow> is_digit (digit_char k)"
  by (simp add: is_digit_def less_eq_char_def of_char_digit)

lemma digit_val_digit: "k < 10 \<Longrightarrow> digit_val (digit_char k) = k"
  by (simp add: digit_val_def of_char_digit)

lemma digit_not_dash: "k < 10 \<Longrightarrow> digit_char k \<noteq> CHR ''-''"
  by (erule digit_cases) (simp_all add: digit_char_def)

lemma two_digit_less:
  fixes qa ra qb rb k :: nat
  assumes "k * qa + ra < k * qb + rb" and "ra < k" and "rb < k"
  shows "qa < qb \<or> (qa = qb \<and> ra < rb)"
proof (cases "qa < qb")
  case True
  then show ?thesis by simp
next
  case False
  have "qa = qb"
  proof (rule ccontr)
    assume "qa \<noteq> qb"
    then have "qb + 1 \<le> qa" using False by simp
    then have "k * (qb + 1) \<le> k * qa" by (rule mult_le_mono2)
    then show False using assms by simp
  qed
  then show ?thesis using assms by simp
qed

lemma pad2_less: "a < b \<Longrightarrow> b < 100 \<Longrightarrow> pad2 a < pad2 b"
proof -
  assume ab: "a < b" "b < 100"
  have "10 * (a div 10) + a mod 10 < 10 * (b div 10) + b mod 10"
    using ab(1) by (simp only: mult_div_mod_eq)
  then have "a div 10 < b div 10 \<or> (a div 10 = b div 10 \<and> a mod 10 < b mod 10)"
    by (rule two_digit_less) simp_all
  moreover have "a div 10 < 10" "b div 10 < 10" using ab by simp_all
  ultimately show ?thesis
    by (auto simp: pad2_def digit_char_less_iff digit_char_eq_iff)
qed

lemma append_less_iff:
  fixes xs ys :: "'a::linorder list"
  shows "length xs = length ys \<Longrightarrow> xs @ us < ys @ vs \<longleftrightarrow> xs < ys \<or> xs = ys \<and> us < vs"
  by (induction xs ys rule: list_induct2) auto

lemma append_le_iff:
  fixes xs ys :: "'a::linorder list"
  shows "length xs = length ys \<Longrightarrow> xs @ us \<le> ys @ vs \<longleftrightarrow> xs < ys \<or> xs = ys \<and> us \<le> vs"
  by (induction xs ys rule: list_induct2) auto

lemma length_pad [simp]: "length (pad2 n) = 2" "length (pad4 n) = 4"
  by (simp_all add: pad2_def pad4_def)

lemma pad4_split: "pad4 n = pad2 (n div 100) @ pad2 (n mod 100)"
proof -
  have a: "n div 100 div 10 = n div 1000"
    by (simp add: div_mult2_eq [symmetric])
  have "n mod 100 = 10 * (n div 10 mod 10) + n mod 10"
    using mod_mult2_eq [of n 10 10] by simp
  then have b: "n mod 100 div 10 = n div 10 mod 10"
    by simp
  have c: "n mod 100 mod 10 = n mod 10"
    by (simp add: mod_mod_cancel)
  show ?thesis
    by (simp add: pad4_def pad2_def a b c)
qed

lemma pad4_less: "a < b \<Longrightarrow> b < 10000 \<Longrightarrow> pad4 a < pad4 b"
proof -
  assume ab: "a < b" "b < 10000"
  have "100 * (a div 100) + a mod 100 < 100 * (b div 100) + b mod 100"
    using ab(1) by (simp only: mult_div_mod_eq)
  then have "a div 100 < b div 100 \<or> (a div 100 = b div 100 \<and> a mod 100 < b mod 100)"
    by (rule two_digit_less) simp_all
  moreover have "b div 100 < 100" "b mod 100 < 100" using ab by simp_all
  ultimately show ?thesis
    by (auto simp: pad4_split append_less_iff pad2_less)
qed

lemma strftime_prev_day:
  assumes "1 \<le> year dt" and "year dt \<le> 9999" and "1 \<le> month dt" and "month dt \<le> 12"
    and "1 \<le> day dt" and "day dt \<le> days_in_month (year dt) (month dt)"
  shows "strftime_ymd (prev_day dt) \<le> strftime_ymd dt"
proof -
  have d31: "day dt \<le> 31"
    using assms(6) by (simp add: days_in_month_def split: if_splits)
  consider (d) "1 < day dt" | (m) "day dt = 1" "1 < month dt" | (y) "day dt = 1" "month dt = 1"
    using assms by linarith
  then show ?thesis
  proof cases
    case d
    then have "pad2 (day dt - 1) < pad2 (day dt)"
      using d31 by (intro pad2_less) simp_all
    then show ?thesis
      using d by (simp add: strftime_ymd_def prev_day_def append_le_iff)
  next
    case m
    then have "pad2 (month dt - 1) < pad2 (month dt)"
      using assms(4) by (intro pad2_less) simp_all
    then show ?thesis
      using m by (simp add: strftime_ymd_def prev_day_def append_le_iff)
  next
    case y
    have "pad4 (year dt - 1) < pad4 (year dt)"
      using assms(1,2) by (intro pad4_less) simp_all
    then show ?thesis
      using y by (simp add: strftime_ymd_def prev_day_def append_le_iff)
  qed
qed

lemma prev_day_fields:
  assumes "1 \<le> month dt" and "month dt \<le> 12"
    and "1 \<le> day dt" and "day dt \<le> days_in_month (year dt) (month dt)"
  shows "1 \<le> month (prev_day dt)" and "month (prev_day dt) \<le> 12"
    and "1 \<le> day (prev_day dt)"
    and "day (prev_day dt) \<le> days_in_month (year (prev_day dt)) (month (prev_day dt))"
    and "year dt - 1 \<le> year (prev_day dt)" and "year (prev_day dt) \<le> year dt"
  using assms by (auto simp: prev_day_def days_in_month_def)

lemma strftime_minus_days:
  "n < year dt \<Longrightarrow> year dt \<le> 9999 \<Longrightarrow> 1 \<le> month dt \<Longrightarrow> month dt \<le> 12 \<Longrightarrow> 1 \<le> day dt
    \<Longrightarrow> day dt \<le> days_in_month (year dt) (month dt)
    \<Longrightarrow> strftime_ymd (minus_days n dt) \<le> strftime_ymd dt"
proof (induction n arbitrary: dt)
  case 0
  then show ?case by simp
next
  case (Suc n)
  have step: "strftime_ymd (prev_day dt) \<le> strftime_ymd dt"
    using Suc.prems by (intro strftime_prev_day) simp_all
  have "strftime_ymd (minus_days n (prev_day dt)) \<le> strftime_ymd (prev_day dt)"
    using Suc.prems prev_day_fields [of dt] by (intro Suc.IH) simp_all
  then show ?case
    using step by simp
qed

lemma cutoff_le_today: "valid_now now \<Longrightarrow> cutoff_str now \<le> strftime_ymd now"
  unfolding cutoff_str_def
  by (rule strftime_minus_days) (simp_all add: valid_now_def valid_date_def)

lemma takeWhile_pad2: "n < 100 \<Longrightarrow> takeWhile (\<lambda>c. c \<noteq> CHR ''-'') (pad2 n @ CHR ''-'' # rest) = pad2 n"
  by (simp add: pad2_def digit_not_dash)

lemma dropWhile_pad2: "n < 100 \<Longrightarrow> dropWhile (\<lambda>c. c \<noteq> CHR ''-'') (pad2 n @ CHR ''-'' # rest) = CHR ''-'' # rest"
  by (simp add: pad2_def digit_not_dash)

lemma month_field_pad2: "1 \<le> m \<Longrightarrow> m \<le> 12 \<Longrightarrow> month_field (pad2 m) = Some m"
proof -
  assume "1 \<le> m" "m \<le> 12"
  then consider "m = 1" | "m = 2" | "m = 3" | "m = 4" | "m = 5" | "m = 6" | "m = 7" | "m = 8"
    | "m = 9" | "m = 10" | "m = 11" | "m = 12"
    by atomize_elim arith
  then show ?thesis
    by cases (simp_all add: pad2_def digit_char_def digit_val_def)
qed

lemma day_field_pad2: "1 \<le> d \<Longrightarrow> d \<le> 31 \<Longrightarrow> day_field (pad2 d) = Some d"
proof -
  assume d: "1 \<le> d" "d \<le> 31"
  define a where "a = d div 10"
  define b where "b = d mod 10"
  have ab: "d = 10 * a + b" "b < 10" "a < 10" "a \<le> 3"
    using d by (simp_all add: a_def b_def)
  have p: "pad2 d = [digit_char a, digit_char b]"
    using d by (simp add: pad2_def a_def b_def)
  have c: "CHR ''0'' = digit_char 0" "CHR ''1'' = digit_char 1" "CHR ''2'' = digit_char 2"
    "CHR ''3'' = digit_char 3" "CHR ''9'' = digit_char 9"
    by (simp_all add: digit_char_def)
  have sp: "digit_char a \<noteq> CHR '' ''"
    using ab(3) by (elim digit_cases) (simp_all add: digit_char_def)
  consider "a = 0" | "a = 1" | "a = 2" | "a = 3"
    using ab(4) by atomize_elim arith
  then show ?thesis
  proof cases
    case 1
    then show ?thesis
      using ab d unfolding p
      by (simp add: c(1)) (simp add: c digit_char_le_iff digit_char_eq_iff digit_val_digit)
  next
    case 2
    then show ?thesis
      using ab d unfolding p
      by (simp add: c digit_char_le_iff digit_char_eq_iff digit_val_digit is_digit_digit)
  next
    case 3
    then show ?thesis
      using ab d unfolding p
      by (simp add: c digit_char_le_iff digit_char_eq_iff digit_val_digit is_digit_digit)
  next
    case 4
    then show ?thesis
      using ab d unfolding p
      by (simp add: c digit_char_le_iff digit_char_eq_iff digit_val_digit is_digit_digit)
  qed
qed

lemma year_digits:
  assumes "y < 10000"
  shows "1000 * (y div 1000 mod 10) + 100 * (y div 100 mod 10) + 10 * (y div 10 mod 10)
           + y mod 10 = (y::nat)"
proof -
  define q3 where "q3 = y div 1000"
  define q2 where "q2 = y div 100"
  define q1 where "q1 = y div 10"
  define r2 where "r2 = y div 100 mod 10"
  define r1 where "r1 = y div 10 mod 10"
  define r0 where "r0 = y mod 10"
  have a: "y div 1000 mod 10 = q3"
    using assms by (simp add: q3_def)
  have "y div 100 div 10 = y div 1000" "y div 10 div 10 = y div 100"
    by (simp_all add: div_mult2_eq [symmetric])
  then have b: "q2 = 10 * q3 + r2" "q1 = 10 * q2 + r1"
    using mult_div_mod_eq [of 10 "y div 100"] mult_div_mod_eq [of 10 "y div 10"]
    by (simp_all add: q3_def q2_def q1_def r2_def r1_def)
  have c: "y = 10 * q1 + r0"
    using mult_div_mod_eq [of 10 y] by (simp add: q1_def r0_def)
  have "1000 * q3 + 100 * r2 + 10 * r1 + r0 = y"
    using b c by simp
  then show ?thesis
    by (simp add: a r2_def r1_def r0_def)
qed

lemma strptime_strftime:
  assumes "valid_date dt"
  shows "strptime_ymd (strftime_ymd dt)
    = Inr \<lparr>year = year dt, month = month dt, day = day dt, hour = 0, minute = 0, second = 0,
           microsecond = 0\<rparr>"
proof -
  have v: "1 \<le> year dt" "year dt \<le> 9999" "1 \<le> month dt" "month dt \<le> 12" "1 \<le> day dt"
    "day dt \<le> days_in_month (year dt) (month dt)"
    using assms by (simp_all add: valid_date_def)
  have d31: "day dt \<le> 31"
    using v(6) by (simp add: days_in_month_def split: if_splits)
  have m: "month dt < 100" using v(4) by simp
  have y: "1000 * (year dt div 1000 mod 10) + 100 * (year dt div 100 mod 10)
           + 10 * (year dt div 10 mod 10) + year dt mod 10 = year dt"
    using v(2) by (intro year_digits) simp
  have s: "strftime_ymd dt = digit_char (year dt div 1000 mod 10) # digit_char (year dt div 100 mod 10)
         # digit_char (year dt div 10 mod 10) # digit_char (year dt mod 10) # CHR ''-''
         # (pad2 (month dt) @ CHR ''-'' # pad2 (day dt))"
    by (simp add: strftime_ymd_def pad4_def)
  show ?thesis
    unfolding s strptime_ymd_def
    using v y
    by (simp add: is_digit_digit digit_val_digit takeWhile_pad2 [OF m] dropWhile_pad2 [OF m]
        month_field_pad2 day_field_pad2 [OF v(5) d31])
qed

subsection \<open>Writing the chart and the report\<close>

lemma parse_dates_ok: "list_all (\<lambda>e. parses (date e)) h \<Longrightarrow> \<exists>ds. parse_dates h = Inr ds"
  by (induction h) (auto simp: parses_def split: sum.splits)

lemma parse_dates_fail: "\<not> list_all (\<lambda>e. parses (date e)) h \<Longrightarrow> parse_dates h = Inl ValueError"
  by (induction h) (auto simp: parses_def split: sum.splits dest: strptime_error)

lemma parses_today: "valid_now now \<Longrightarrow> parses (strftime_ymd now)"
  by (simp add: parses_def valid_now_def strptime_strftime)

lemma update_today_None: "update_today t r s h = None \<longleftrightarrow> t \<notin> date ` set h"
  by (induction h) auto

lemma update_today_dates: "update_today t r s h = Some h' \<Longrightarrow> map date h' = map date h"
  by (induction h arbitrary: h') (auto split: if_splits)

lemma update_today_has: "update_today t r s h = Some h' \<Longrightarrow> \<exists>e \<in> set h'. date e = t \<and> rating e = r"
  by (induction h arbitrary: h') (auto split: if_splits)

lemma upsert_today_has: "\<exists>e \<in> set (upsert_today now h r). date e = strftime_ymd now \<and> rating e = r"
  by (auto simp: upsert_today_def split: option.splits dest: update_today_has)

lemma upsert_today_dates:
  "date ` set (upsert_today now h r) = insert (strftime_ymd now) (date ` set h)"
proof (cases "update_today (strftime_ymd now) r (isoformat now) h")
  case None
  then show ?thesis by (auto simp: upsert_today_def)
next
  case (Some h')
  have "set (map date h') = set (map date h)"
    using update_today_dates [OF Some] by simp
  moreover have "strftime_ymd now \<in> date ` set h"
    using Some update_today_None [of "strftime_ymd now" r "isoformat now" h] by auto
  ultimately show ?thesis
    using Some by (auto simp: upsert_today_def)
qed

lemma cap30_nonempty: "h \<noteq> [] \<Longrightarrow> cap30 h \<noteq> []"
  by (auto simp: cap30_def)

lemma add_today_rating_nonempty:
  assumes "valid_now now"
  shows "add_today_rating now h (Some r) \<noteq> []"
proof -
  obtain e where e: "e \<in> set (upsert_today now h r)" "date e = strftime_ymd now"
    using upsert_today_has [of now h r] by auto
  then have "e \<in> set (prune now (sort_key date (upsert_today now h r)))"
    using cutoff_le_today [OF assms] by (simp add: set_prune)
  then have "prune now (sort_key date (upsert_today now h r)) \<noteq> []"
    by auto
  then show ?thesis
    by (simp add: add_today_rating_def cap30_nonempty)
qed

lemma add_today_rating_dates:
  "date ` set (add_today_rating now h (Some r)) \<subseteq> insert (strftime_ymd now) (date ` set h)"
proof -
  have "set (add_today_rating now h (Some r)) \<subseteq> set (upsert_today now h r)"
    using set_cap30 [of "prune now (sort_key date (upsert_today now h r))"]
    by (auto simp: add_today_rating_def set_prune)
  then show ?thesis
    using upsert_today_dates [of now h r] by blast
qed

lemma add_today_rating_parses:
  assumes "valid_now now" and "list_all (\<lambda>e. parses (date e)) h"
  shows "list_all (\<lambda>e. parses (date e)) (add_today_rating now h (Some r))"
  using add_today_rating_dates [of now h r] parses_today [OF assms(1)] assms(2)
  by (auto simp: list_all_iff)

lemma create_svg_graph_True:
  assumes "history \<noteq> []" and "list_all (\<lambda>e. parses (date e)) history"
  shows "\<exists>svg. create_svg_graph history w = (Inr True, write_file GRAPH_FILE svg w)"
proof -
  obtain dates where d: "parse_dates history = Inr dates"
    using parse_dates_ok [OF assms(2)] by auto
  obtain svg where "svg_content history dates = Inr svg"
    using svg_content_ok [OF assms(1), of dates] parse_dates_length [OF d] by auto
  then show ?thesis
    using assms(1) d by (auto simp: create_svg_graph_def)
qed

lemma create_svg_graph_raises:
  assumes "history \<noteq> []" and "\<not> list_all (\<lambda>e. parses (date e)) history"
  shows "create_svg_graph history w = (Inl ValueError, w)"
  using assms(1) parse_dates_fail [OF assms(2)] by (simp add: create_svg_graph_def)

lemma load_history_same_files: "files w = files w' \<Longrightarrow> load_history json_load w = load_history json_load w'"
  by (simp add: load_history_def)

lemma cleanup_result:
  assumes "load_history json_load w = Inr h"
  shows "\<exists>h0 w'. cleanup_old_data json_load json_dump now w = (Inr h0, w') \<and> set h0 \<subseteq> set h"
  using assms by (auto simp: cleanup_old_data_def Let_def set_prune)

lemma files_print [simp]: "files (print line w) = files w"
  by (simp add: print_def)

lemma files_write_file [simp]: "files (write_file name content w) = (files w)(name \<mapsto> content)"
  by (simp add: write_file_def)

lemma files_report:
  "history \<noteq> [] \<Longrightarrow> files (report now r history w) = (files w)(README_FILE \<mapsto> readme_content now history)"
  by (simp add: report_def update_readme_def Let_def)

lemma file_names:
  "README_FILE \<noteq> GRAPH_FILE" "README_FILE \<noteq> HISTORY_FILE" "GRAPH_FILE \<noteq> HISTORY_FILE"
  by (simp_all add: README_FILE_def GRAPH_FILE_def HISTORY_FILE_def)

lemma fetch_Some:
  "fst (fetch_current_rating resp w) = Some r \<Longrightarrow> fetch_current_rating resp w' = (Some r, w')"
  by (auto simp: fetch_current_rating_def split: response.splits option.splits)

lemma create_svg_graph_writes:
  assumes "history \<noteq> []" and "list_all (\<lambda>e. parses (date e)) history"
  shows "\<exists>svg. \<forall>w. create_svg_graph history w = (Inr True, write_file GRAPH_FILE svg w)"
proof -
  obtain dates where d: "parse_dates history = Inr dates"
    using parse_dates_ok [OF assms(2)] by auto
  obtain svg where "svg_content history dates = Inr svg"
    using svg_content_ok [OF assms(1), of dates] parse_dates_length [OF d] by auto
  then have "\<forall>w. create_svg_graph history w = (Inr True, write_file GRAPH_FILE svg w)"
    using assms(1) d by (simp add: create_svg_graph_def)
  then show ?thesis ..
qed

lemma main_success:
  assumes "valid_now now" and "fst (fetch_current_rating resp w) = Some r"
    and "load_history json_load w = Inr h" and "list_all (\<lambda>e. parses (date e)) h"
  shows "\<exists>merged svg w'. main json_load json_dump now resp w = (None, w')
    \<and> merged \<noteq> []
    \<and> files w' HISTORY_FILE = Some (json_dump merged)
    \<and> files w' GRAPH_FILE = Some svg
    \<and> files w' README_FILE = Some (readme_content now merged)"
proof -
  define w3 where "w3 = print (''Current rating: '' @ str_int r)
    (print (''Fetching rating data for '' @ CHESS_USERNAME @ ''...'') w)"
  have "load_history json_load w3 = Inr h"
    using assms(3) load_history_same_files [of w3 w json_load] by (simp add: w3_def)
  then obtain h0 w4 where c: "cleanup_old_data json_load json_dump now w3 = (Inr h0, w4)"
    and h0: "set h0 \<subseteq> set h"
    using cleanup_result [of json_load w3 h json_dump now] by auto
  define merged where "merged = add_today_rating now h0 (Some r)"
  have ne: "merged \<noteq> []"
    using add_today_rating_nonempty [OF assms(1)] by (simp add: merged_def)
  have "list_all (\<lambda>e. parses (date e)) h0"
    using assms(4) h0 by (auto simp: list_all_iff)
  then have "list_all (\<lambda>e. parses (date e)) merged"
    unfolding merged_def by (rule add_today_rating_parses [OF assms(1)])
  then obtain svg where g: "\<And>w. create_svg_graph merged w = (Inr True, write_file GRAPH_FILE svg w)"
    using create_svg_graph_writes [OF ne] by auto
  define w7 where "w7 = print (''Total data points: '' @ str_int (int (length merged)))
    (save_history json_dump merged
      (print (''Existing data points: '' @ str_int (int (length h0))) w4))"
  have m: "main json_load json_dump now resp w
      = (None, report now r merged (write_file GRAPH_FILE svg w7))"
    unfolding main_def Let_def fetch_Some [OF assms(2)] prod.case option.case sum.case
      bool.case w3_def [symmetric] c merged_def [symmetric] w7_def [symmetric] g
    by (rule refl)
  have "files (report now r merged (write_file GRAPH_FILE svg w7))
      = (files w4)(HISTORY_FILE \<mapsto> json_dump merged, GRAPH_FILE \<mapsto> svg,
          README_FILE \<mapsto> readme_content now merged)"
    using ne by (simp add: files_report w7_def save_history_def)
  then show ?thesis
    using m ne file_names by auto
qed

lemmas strptime_defs = strptime_ymd_def is_digit_def digit_val_def days_in_month_def is_leap_def

lemma parses_sample: "list_all (\<lambda>e. parses (date e)) sample_history"
  by (simp add: sample_history_def parses_def strptime_defs)

lemma not_parses_edited: "\<not> list_all (\<lambda>e. parses (date e)) edited_history"
  by (simp add: edited_history_def parses_def strptime_defs)

lemma valid_sample_now: "valid_now sample_now"
  by (simp add: valid_now_def valid_date_def sample_now_def days_in_month_def)

lemma fetch_sample: "fetch_current_rating sample_response w = (Some 1500, w)"
  by (simp add: fetch_current_rating_def sample_response_def)

lemma create_svg_graph_edited:
  "create_svg_graph edited_history w = (Inl ValueError, w)"
proof -
  have "edited_history \<noteq> []"
    by (simp add: edited_history_def)
  then show ?thesis
    using create_svg_graph_raises [OF _ not_parses_edited] by simp
qed

lemma main_edited:
  "fst (main sample_json_load sample_json_dump sample_now sample_response edited_world)
     = Some ValueError
   \<and> files (snd (main sample_json_load sample_json_dump sample_now sample_response
        edited_world)) GRAPH_FILE = None
   \<and> files (snd (main sample_json_load sample_json_dump sample_now sample_response
        edited_world)) README_FILE = None"
proof -
  define w3 where "w3 = print (''Current rating: '' @ str_int 1500)
    (print (''Fetching rating data for '' @ CHESS_USERNAME @ ''...'') edited_world)"
  have f3: "files w3 HISTORY_FILE = Some ''[edited]''"
    by (simp add: w3_def edited_world_def)
  then have l: "load_history sample_json_load w3 = Inr edited_history"
    by (simp add: load_history_def sample_json_load_def)
  have p: "prune sample_now edited_history = edited_history"
    by (simp add: prune_def cutoff_sample edited_history_def)
  have c: "cleanup_old_data sample_json_load sample_json_dump sample_now w3
      = (Inr edited_history, w3)"
    using f3 by (simp add: cleanup_old_data_def l p)
  define merged where "merged = add_today_rating sample_now edited_history (Some 1500)"
  have "map date merged = [''2026-11-03'', ''2026/11/02'']"
    by (simp add: merged_def add_today_rating_def cap30_def prune_def cutoff_sample
        upsert_today_def today_sample edited_history_def)
  then have "\<not> list_all (\<lambda>e. parses (date e)) merged" and "merged \<noteq> []"
    using not_parses_edited by (auto simp: list_all_iff edited_history_def)
  then have g: "\<And>w. create_svg_graph merged w = (Inl ValueError, w)"
    by (simp add: create_svg_graph_raises)
  define w7 where "w7 = print (''Total data points: '' @ str_int (int (length merged)))
    (save_history sample_json_dump merged
      (print (''Existing data points: '' @ str_int (int (length edited_history))) w3))"
  have m: "main sample_json_load sample_json_dump sample_now sample_response edited_world
      = (Some ValueError, w7)"
    unfolding main_def Let_def fetch_sample prod.case option.case sum.case
      w3_def [symmetric] c merged_def [symmetric] w7_def [symmetric] g
    by (rule refl)
  have "files w7 = [HISTORY_FILE \<mapsto> sample_json_dump merged]"
    by (simp add: w7_def w3_def save_history_def edited_world_def)
  then show ?thesis
    using file_names by (simp add: m)
qed

text \<open>
  C10, as the code has it: \<^verbatim>\<open>create_svg_graph\<close> returns \<open>False\<close> and writes nothing for
  the empty history. For a non-empty history it writes the chart and returns \<open>True\<close>
  when \<^verbatim>\<open>strptime\<close> accepts every date of the history; when some date is not accepted
  it raises ValueError and writes nothing. After a successful fetch, with a clock
  reading from 1970 on, the merged history is non-empty; and when the stored history
  loads and all its dates parse, the run ends without an exception, having written the
  history, the chart and the README.
\<close>

theorem create_svg_graph_result:
  "create_svg_graph [] w = (Inr False, w)
   \<and> (history \<noteq> [] \<and> list_all (\<lambda>e. parses (date e)) history
        \<longrightarrow> (\<exists>svg. create_svg_graph history w = (Inr True, write_file GRAPH_FILE svg w)))
   \<and> (history \<noteq> [] \<and> \<not> list_all (\<lambda>e. parses (date e)) history
        \<longrightarrow> create_svg_graph history w = (Inl ValueError, w))
   \<and> (valid_now now \<longrightarrow> add_today_rating now h (Some r) \<noteq> [])
   \<and> (valid_now now \<and> fst (fetch_current_rating resp w) = Some r
        \<and> load_history json_load w = Inr h \<and> list_all (\<lambda>e. parses (date e)) h
        \<longrightarrow> (\<exists>merged svg w'. main json_load json_dump now resp w = (None, w')
              \<and> merged \<noteq> []
              \<and> files w' HISTORY_FILE = Some (json_dump merged)
              \<and> files w' GRAPH_FILE = Some svg
              \<and> files w' README_FILE = Some (readme_content now merged)))"
proof (intro conjI impI)
  show "create_svg_graph [] w = (Inr False, w)"
    by (simp add: create_svg_graph_def)
  show "\<exists>svg. create_svg_graph history w = (Inr True, write_file GRAPH_FILE svg w)"
    if "history \<noteq> [] \<and> list_all (\<lambda>e. parses (date e)) history"
    using that create_svg_graph_True by blast
  show "create_svg_graph history w = (Inl ValueError, w)"
    if "history \<noteq> [] \<and> \<not> list_all (\<lambda>e. parses (date e)) history"
    using that create_svg_graph_raises by blast
  show "add_today_rating now h (Some r) \<noteq> []" if "valid_now now"
    using that by (rule add_today_rating_nonempty)
  show "\<exists>merged svg w'. main json_load json_dump now resp w = (None, w')
      \<and> merged \<noteq> []
      \<and> files w' HISTORY_FILE = Some (json_dump merged)
      \<and> files w' GRAPH_FILE = Some svg
      \<and> files w' README_FILE = Some (readme_content now merged)"
    if "valid_now now \<and> fst (fetch_current_rating resp w) = Some r
        \<and> load_history json_load w = Inr h \<and> list_all (\<lambda>e. parses (date e)) h"
    using that main_success [of now resp w r json_load h json_dump] by blast
qed

theorem create_svg_graph_counterexample:
  "edited_history \<noteq> []
   \<and> create_svg_graph edited_history sample_world = (Inl ValueError, sample_world)
   \<and> fst (create_svg_graph edited_history sample_world) \<noteq> Inr True
   \<and> fst (fetch_current_rating sample_response edited_world) = Some 1500
   \<and> fst (main sample_json_load sample_json_dump sample_now sample_response edited_world)
       = Some ValueError
   \<and> files (snd (main sample_json_load sample_json_dump sample_now sample_response
        edited_world)) GRAPH_FILE = None
   \<and> files (snd (main sample_json_load sample_json_dump sample_now sample_response
        edited_world)) README_FILE = None"
  using main_edited by (simp add: create_svg_graph_edited fetch_sample) (simp add: edited_history_def)

lemma parses_stored: "list_all (\<lambda>e. parses (date e)) (rev sample_history)"
  using parses_sample by simp

theorem create_svg_graph_result_witness:
  "create_svg_graph [] sample_world = (Inr False, sample_world)
   \<and> sample_history \<noteq> [] \<and> list_all (\<lambda>e. parses (date e)) sample_history
   \<and> (\<exists>svg. create_svg_graph sample_history sample_world
          = (Inr True, write_file GRAPH_FILE svg sample_world))
   \<and> edited_history \<noteq> [] \<and> \<not> list_all (\<lambda>e. parses (date e)) edited_history
   \<and> create_svg_graph edited_history sample_world = (Inl ValueError, sample_world)
   \<and> valid_now sample_now
   \<and> add_today_rating sample_now (rev sample_history) (Some 1500) \<noteq> []
   \<and> fst (fetch_current_rating sample_response sample_world) = Some 1500
   \<and> load_history sample_json_load sample_world = Inr (rev sample_history)
   \<and> (\<exists>merged svg w'.
         main sample_json_load sample_json_dump sample_now sample_response sample_world
           = (None, w')
         \<and> merged \<noteq> []
         \<and> files w' HISTORY_FILE = Some (sample_json_dump merged)
         \<and> files w' GRAPH_FILE = Some svg
         \<and> files w' README_FILE = Some (readme_content sample_now merged))"
proof -
  have a: "sample_history \<noteq> []" "edited_history \<noteq> []"
    by (simp_all add: sample_history_def edited_history_def)
  have f: "fst (fetch_current_rating sample_response sample_world) = Some 1500"
    by (simp add: fetch_sample)
  note t1 = create_svg_graph_result [of sample_world sample_history sample_now
      "rev sample_history" 1500 sample_response sample_json_load sample_json_dump]
  note t2 = create_svg_graph_result [of sample_world edited_history sample_now
      "rev sample_history" 1500 sample_response sample_json_load sample_json_dump]
  show ?thesis
    using t1 t2 a f parses_sample parses_stored not_parses_edited valid_sample_now load_sample
    by blast
qed

subsection \<open>Upsert by date\<close>

lemma update_today_nth:
  "update_today t r s h = Some h' \<Longrightarrow>
     \<exists>i < length h. date (h ! i) = t \<and> h' = h[i := (h ! i)\<lparr>rating := r, updated := s\<rparr>]"
proof (induction h arbitrary: h')
  case Nil
  then show ?case by simp
next
  case (Cons e es)
  show ?case
  proof (cases "date e = t")
    case True
    then have "h' = (e # es)[0 := ((e # es) ! 0)\<lparr>rating := r, updated := s\<rparr>]"
      using Cons.prems by simp
    then show ?thesis using True by (intro exI [of _ 0]) simp
  next
    case False
    then obtain es' where es': "update_today t r s es = Some es'" and h': "h' = e # es'"
      using Cons.prems by auto
    then obtain i where "i < length es" "date (es ! i) = t"
      "es' = es[i := (es ! i)\<lparr>rating := r, updated := s\<rparr>]"
      using Cons.IH by blast
    then show ?thesis using h' by (intro exI [of _ "Suc i"]) simp
  qed
qed

lemma update_today_keeps:
  "update_today t r s h = Some h' \<Longrightarrow> e \<in> set h' \<Longrightarrow> e \<in> set h \<or> date e = t"
  by (induction h arbitrary: h') (auto split: if_splits)

lemma update_today_others:
  "update_today t r s h = Some h' \<Longrightarrow> e \<in> set h \<Longrightarrow> date e \<noteq> t \<Longrightarrow> e \<in> set h'"
  by (induction h arbitrary: h') (auto split: if_splits)

lemma upsert_today_keeps:
  "e \<in> set (upsert_today now h r) \<Longrightarrow> e \<in> set h \<or> date e = strftime_ymd now"
  by (auto simp: upsert_today_def split: option.splits dest: update_today_keeps)

lemma upsert_today_others:
  "e \<in> set h \<Longrightarrow> date e \<noteq> strftime_ymd now \<Longrightarrow> e \<in> set (upsert_today now h r)"
  by (auto simp: upsert_today_def split: option.splits dest: update_today_others)

lemma upsert_today_map_date:
  "map date (upsert_today now h r)
     = (if strftime_ymd now \<in> date ` set h then map date h else map date h @ [strftime_ymd now])"
proof (cases "update_today (strftime_ymd now) r (isoformat now) h")
  case None
  then show ?thesis
    using update_today_None [of "strftime_ymd now" r "isoformat now" h]
    by (simp add: upsert_today_def)
next
  case (Some h')
  then show ?thesis
    using update_today_None [of "strftime_ymd now" r "isoformat now" h]
      update_today_dates [OF Some]
    by (simp add: upsert_today_def)
qed

lemma upsert_today_distinct:
  "distinct (map date h) \<Longrightarrow> distinct (map date (upsert_today now h r))"
  by (simp add: upsert_today_map_date)

lemma merged_distinct:
  assumes "distinct (map date h)"
  shows "distinct (map date (prune now (sort_key date (upsert_today now h r))))"
proof -
  have "distinct (map date (sort_key date (upsert_today now h r)))"
    using upsert_today_distinct [OF assms, of now r]
    by (metis distinct_map distinct_sort set_sort inj_on_cong)
  then show ?thesis
    by (simp add: prune_def distinct_map_filter)
qed

lemma cap30_keeps:
  assumes "sorted (map date l)" and "distinct (map date l)" and "x \<in> set l"
    and "length (filter (\<lambda>y. date x < date y) l) < 30"
  shows "x \<in> set (cap30 l)"
proof (cases "length l > 30")
  case False
  then show ?thesis using assms(3) by (simp add: cap30_def)
next
  case True
  define k where "k = length l - 30"
  have split: "l = take k l @ drop k l" by simp
  have len: "length (drop k l) = 30" using True by (simp add: k_def)
  have "x \<in> set (drop k l)"
  proof (rule ccontr)
    assume "x \<notin> set (drop k l)"
    then have xt: "x \<in> set (take k l)"
      using assms(3) split by (metis Un_iff set_append)
    have s: "sorted (map date (take k l) @ map date (drop k l))"
      using assms(1) by (metis map_append split)
    have d: "distinct (map date (take k l) @ map date (drop k l))"
      using assms(2) by (metis map_append split)
    have "\<forall>y \<in> set (drop k l). date x < date y"
    proof
      fix y assume y: "y \<in> set (drop k l)"
      have "date x \<le> date y"
        using s xt y by (auto simp: sorted_append)
      moreover have "date x \<noteq> date y"
        using d xt y by auto
      ultimately show "date x < date y" by simp
    qed
    then have "filter (\<lambda>y. date x < date y) (drop k l) = drop k l"
      by simp
    moreover have "length (filter (\<lambda>y. date x < date y) l)
        = length (filter (\<lambda>y. date x < date y) (take k l))
          + length (filter (\<lambda>y. date x < date y) (drop k l))"
      by (metis filter_append length_append split)
    ultimately show False
      using assms(4) len by simp
  qed
  then show ?thesis
    using True by (simp add: cap30_def k_def)
qed

lemma count_merged_le:
  "length (filter P (prune now (sort_key date u))) \<le> length (filter P u)"
proof -
  have "filter P (prune now (sort_key date u))
      = filter (\<lambda>entry. cutoff_str now \<le> date entry) (filter P (sort_key date u))"
    by (auto simp: prune_def intro: filter_cong)
  moreover have "length (filter (\<lambda>entry. cutoff_str now \<le> date entry)
        (filter P (sort_key date u))) \<le> length (filter P (sort_key date u))"
    by (rule length_filter_le)
  ultimately have "length (filter P (prune now (sort_key date u)))
      \<le> length (filter P (sort_key date u))"
    by (simp only:)
  also have "\<dots> = length (filter P u)"
    by (simp add: filter_sort)
  finally show ?thesis .
qed

lemma count_after_today:
  "length (filter (\<lambda>y. strftime_ymd now < date y) (upsert_today now h r))
     = length (filter (\<lambda>y. strftime_ymd now < date y) h)"
proof -
  have c: "length (filter (\<lambda>y. strftime_ymd now < date y) xs)
      = length (filter (\<lambda>d. strftime_ymd now < d) (map date xs))" for xs :: history
    by (simp add: filter_map comp_def)
  show ?thesis
    unfolding c by (simp add: upsert_today_map_date)
qed

lemma distinct_cap30: "distinct (map date l) \<Longrightarrow> distinct (map date (cap30 l))"
  by (simp add: cap30_def drop_map [symmetric] del: distinct_map)

lemma length_merged_le:
  "length (cap30 (prune now (sort_key date u))) \<le> length u"
proof -
  have "length (cap30 (prune now (sort_key date u))) \<le> length (prune now (sort_key date u))"
    by (simp add: cap30_def)
  also have "\<dots> \<le> length (sort_key date u)"
    unfolding prune_def by (rule length_filter_le)
  finally show ?thesis by simp
qed

text \<open>
  The merge in terms of the date strings, compared as the code compares them, for any
  history whose date strings are pairwise distinct.
\<close>

lemma upsert_by_string:
  assumes "distinct (map date h)" and "valid_now now"
  shows "(length (filter (\<lambda>e. strftime_ymd now < date e) h) < 30
          \<longrightarrow> (\<exists>e \<in> set (add_today_rating now h (Some r)).
                date e = strftime_ymd now \<and> rating e = r))
    \<and> (\<forall>e \<in> set (add_today_rating now h (Some r)). date e \<noteq> strftime_ymd now \<longrightarrow> e \<in> set h)
    \<and> (\<forall>e \<in> set h. date e \<noteq> strftime_ymd now \<and> cutoff_str now \<le> date e
          \<and> length (filter (\<lambda>x. date e < date x) (upsert_today now h r)) < 30
          \<longrightarrow> e \<in> set (add_today_rating now h (Some r)))
    \<and> (strftime_ymd now \<in> date ` set h
          \<longrightarrow> (\<exists>i < length h. date (h ! i) = strftime_ymd now
                \<and> upsert_today now h r
                    = h[i := (h ! i)\<lparr>rating := r, updated := isoformat now\<rparr>])
              \<and> length (add_today_rating now h (Some r)) \<le> length h)
    \<and> distinct (map date (add_today_rating now h (Some r)))"
proof -
  define u where "u = upsert_today now h r"
  define l where "l = prune now (sort_key date u)"
  have res: "add_today_rating now h (Some r) = cap30 l"
    by (simp add: add_today_rating_def l_def u_def)
  have sl: "sorted (map date l)"
    unfolding l_def by (rule sorted_prune) simp
  have dl: "distinct (map date l)"
    unfolding l_def u_def by (rule merged_distinct [OF assms(1)])
  have keep: "x \<in> set (cap30 l)"
    if "x \<in> set u" and "cutoff_str now \<le> date x"
      and "length (filter (\<lambda>y. date x < date y) u) < 30" for x
  proof -
    have "x \<in> set l"
      using that(1,2) by (simp add: l_def set_prune)
    moreover have "length (filter (\<lambda>y. date x < date y) l) < 30"
      using count_merged_le [of "\<lambda>y. date x < date y" now u] that(3) by (simp add: l_def)
    ultimately show ?thesis
      using sl dl by (intro cap30_keeps)
  qed
  have p1: "\<exists>e \<in> set (add_today_rating now h (Some r)). date e = strftime_ymd now \<and> rating e = r"
    if "length (filter (\<lambda>e. strftime_ymd now < date e) h) < 30"
  proof -
    obtain t where t: "t \<in> set u" "date t = strftime_ymd now" "rating t = r"
      using upsert_today_has [of now h r] by (auto simp: u_def)
    have "length (filter (\<lambda>y. date t < date y) u) < 30"
      using that count_after_today [of now h r] by (simp add: t(2) u_def)
    then have "t \<in> set (cap30 l)"
      using t cutoff_le_today [OF assms(2)] by (intro keep) simp_all
    then show ?thesis
      using t res by auto
  qed
  have p2: "\<forall>e \<in> set (add_today_rating now h (Some r)). date e \<noteq> strftime_ymd now \<longrightarrow> e \<in> set h"
  proof (intro ballI impI)
    fix e assume "e \<in> set (add_today_rating now h (Some r))" and ne: "date e \<noteq> strftime_ymd now"
    then have "e \<in> set u"
      using set_cap30 [of l] by (auto simp: res l_def set_prune)
    then show "e \<in> set h"
      using upsert_today_keeps [of e now h r] ne by (simp add: u_def)
  qed
  have p3: "\<forall>e \<in> set h. date e \<noteq> strftime_ymd now \<and> cutoff_str now \<le> date e
          \<and> length (filter (\<lambda>x. date e < date x) (upsert_today now h r)) < 30
          \<longrightarrow> e \<in> set (add_today_rating now h (Some r))"
  proof (intro ballI impI)
    fix e assume e: "e \<in> set h"
      and c: "date e \<noteq> strftime_ymd now \<and> cutoff_str now \<le> date e
          \<and> length (filter (\<lambda>x. date e < date x) (upsert_today now h r)) < 30"
    have "e \<in> set u"
      using e c upsert_today_others [of e h now r] by (simp add: u_def)
    then show "e \<in> set (add_today_rating now h (Some r))"
      unfolding res using c by (intro keep) (simp_all add: u_def)
  qed
  have p4: "(\<exists>i < length h. date (h ! i) = strftime_ymd now
                \<and> upsert_today now h r
                    = h[i := (h ! i)\<lparr>rating := r, updated := isoformat now\<rparr>])
              \<and> length (add_today_rating now h (Some r)) \<le> length h"
    if "strftime_ymd now \<in> date ` set h"
  proof -
    have "update_today (strftime_ymd now) r (isoformat now) h \<noteq> None"
      using that by (simp add: update_today_None)
    then obtain h' where h': "update_today (strftime_ymd now) r (isoformat now) h = Some h'"
      by auto
    then have uh: "u = h'"
      by (simp add: u_def upsert_today_def)
    have "\<exists>i < length h. date (h ! i) = strftime_ymd now
        \<and> upsert_today now h r = h[i := (h ! i)\<lparr>rating := r, updated := isoformat now\<rparr>]"
      using update_today_nth [OF h'] uh by (simp add: u_def)
    moreover have "length u = length h"
      using update_today_dates [OF h'] uh by (metis length_map)
    then have "length (add_today_rating now h (Some r)) \<le> length h"
      using length_merged_le [of now u] by (simp add: res l_def)
    ultimately show ?thesis by simp
  qed
  have p5: "distinct (map date (add_today_rating now h (Some r)))"
    unfolding res by (rule distinct_cap30 [OF dl])
  show ?thesis
    using p1 p2 p3 p4 p5 by blast
qed

text \<open>
  The cap of 30 keeps the 30 latest dates: with 30 entries dated after today, today's
  entry is the one the cap drops.
\<close>

lemma future_dates:
  "map date future_history =
     [''2026-12-01'', ''2026-12-02'', ''2026-12-03'', ''2026-12-04'', ''2026-12-05'',
      ''2026-12-06'', ''2026-12-07'', ''2026-12-08'', ''2026-12-09'', ''2026-12-10'',
      ''2026-12-11'', ''2026-12-12'', ''2026-12-13'', ''2026-12-14'', ''2026-12-15'',
      ''2026-12-16'', ''2026-12-17'', ''2026-12-18'', ''2026-12-19'', ''2026-12-20'',
      ''2026-12-21'', ''2026-12-22'', ''2026-12-23'', ''2026-12-24'', ''2026-12-25'',
      ''2026-12-26'', ''2026-12-27'', ''2026-12-28'', ''2026-12-29'', ''2026-12-30'']"
  by (simp add: future_history_def pad2_def digit_char_def)

lemma future_no_today: "''2026-11-03'' \<notin> date ` set future_history"
proof -
  have "''2026-11-03'' \<notin> set (map date future_history)"
    by (simp add: future_dates)
  then show ?thesis
    by simp
qed

lemma future_upsert:
  "upsert_today sample_now future_history 1500
     = future_history @ [\<lparr>date = ''2026-11-03'', rating = 1500, updated = isoformat sample_now\<rparr>]"
  using future_no_today
    update_today_None [of "''2026-11-03''" 1500 "isoformat sample_now" future_history]
  by (simp add: upsert_today_def today_sample)

lemma future_merged:
  "add_today_rating sample_now future_history (Some 1500) = future_history"
  unfolding add_today_rating_def option.case future_upsert
  by (simp add: future_history_def pad2_def digit_char_def prune_def cutoff_sample cap30_def)

subsection \<open>Date strings and calendar dates\<close>

text \<open>
  What \<^verbatim>\<open>strptime\<close> returns is a date of the calendar; and for date strings in the
  zero-padded form, the order and the equality of the strings are the order and the
  equality of the dates.
\<close>

lemma digit_val_le: "is_digit c \<Longrightarrow> digit_val c \<le> 9"
  by (auto simp: is_digit_def digit_val_def less_eq_char_def)

lemma digit_val_range:
  "CHR ''1'' \<le> c \<Longrightarrow> c \<le> CHR ''9'' \<Longrightarrow> 1 \<le> digit_val c \<and> digit_val c \<le> 9"
  "CHR ''0'' \<le> c \<Longrightarrow> c \<le> CHR ''2'' \<Longrightarrow> digit_val c \<le> 2"
  by (auto simp: digit_val_def less_eq_char_def)

lemma digit_val_ge1: "CHR ''1'' \<le> c \<Longrightarrow> Suc 0 \<le> digit_val c"
  by (auto simp: digit_val_def less_eq_char_def)

lemma month_field_range: "month_field s = Some m \<Longrightarrow> 1 \<le> m \<and> m \<le> 12"
  by (induction s rule: month_field.induct)
    (auto split: if_splits dest: digit_val_range)

lemma day_field_range: "day_field s = Some d \<Longrightarrow> 1 \<le> d"
proof (induction s rule: day_field.induct)
  case (2 a b)
  have "CHR ''1'' \<le> a \<Longrightarrow> Suc 0 \<le> 10 * digit_val a + digit_val b"
    using digit_val_ge1 [of a] by arith
  with 2 show ?case
    by (auto split: if_splits dest: digit_val_range)
qed (auto split: if_splits dest: digit_val_range)

lemma strptime_valid: "strptime_ymd s = Inr d \<Longrightarrow> valid_date d"
proof -
  assume a: "strptime_ymd s = Inr d"
  then obtain y1 y2 y3 y4 sep rest where s: "s = y1 # y2 # y3 # y4 # sep # rest"
    by (auto simp: strptime_ymd_def split: list.splits)
  have dig: "is_digit y1" "is_digit y2" "is_digit y3" "is_digit y4"
    using a by (auto simp: strptime_ymd_def s split: if_splits)
  obtain m dd where m: "month_field (takeWhile (\<lambda>c. c \<noteq> CHR ''-'') rest) = Some m"
    and dd: "day_field (tl (dropWhile (\<lambda>c. c \<noteq> CHR ''-'') rest)) = Some dd"
    and d: "d = \<lparr>year = 1000 * digit_val y1 + 100 * digit_val y2 + 10 * digit_val y3 + digit_val y4,
        month = m, day = dd, hour = 0, minute = 0, second = 0, microsecond = 0\<rparr>"
    and chk: "1 \<le> 1000 * digit_val y1 + 100 * digit_val y2 + 10 * digit_val y3 + digit_val y4"
      "dd \<le> days_in_month (1000 * digit_val y1 + 100 * digit_val y2 + 10 * digit_val y3
         + digit_val y4) m"
    using a
    by (auto simp: strptime_ymd_def s Let_def split: if_splits option.splits list.splits)
  have "1000 * digit_val y1 + 100 * digit_val y2 + 10 * digit_val y3 + digit_val y4 \<le> 9999"
    using dig [THEN digit_val_le] by simp
  then show ?thesis
    using month_field_range [OF m] day_field_range [OF dd] chk by (simp add: valid_date_def d)
qed

lemma days_in_month_le: "days_in_month y m \<le> 31"
  by (simp add: days_in_month_def)

lemma date_num_less:
  assumes "valid_date a" and "valid_date b" and "date_num a < date_num b"
  shows "year a < year b \<or> (year a = year b \<and> month a < month b)
    \<or> (year a = year b \<and> month a = month b \<and> day a < day b)"
proof -
  have "month a \<le> 12" "day a \<le> 31" "month b \<le> 12" "day b \<le> 31"
    using assms(1,2) days_in_month_le [of "year a" "month a"]
      days_in_month_le [of "year b" "month b"]
    by (auto simp: valid_date_def)
  moreover have "10000 * year a + 100 * month a + day a < 10000 * year b + 100 * month b + day b"
    using assms(3) by (simp add: date_num_def)
  ultimately show ?thesis by arith
qed

lemma strftime_less:
  assumes "valid_date a" and "valid_date b" and "date_num a < date_num b"
  shows "strftime_ymd a < strftime_ymd b"
proof -
  have b: "year b < 10000" "month b < 100" "day b < 100"
    using assms(2) days_in_month_le [of "year b" "month b"] by (auto simp: valid_date_def)
  consider "year a < year b" | "year a = year b" "month a < month b"
    | "year a = year b" "month a = month b" "day a < day b"
    using date_num_less [OF assms] by blast
  then show ?thesis
  proof cases
    case 1
    then have "pad4 (year a) < pad4 (year b)" using b by (intro pad4_less)
    then show ?thesis by (simp add: strftime_ymd_def append_less_iff)
  next
    case 2
    then have "pad2 (month a) < pad2 (month b)" using b by (intro pad2_less)
    then show ?thesis using 2 by (simp add: strftime_ymd_def append_less_iff)
  next
    case 3
    then have "pad2 (day a) < pad2 (day b)" using b by (intro pad2_less)
    then show ?thesis using 3 by (simp add: strftime_ymd_def append_less_iff)
  qed
qed

lemma strftime_same:
  assumes "valid_date a" and "valid_date b" and "date_num a = date_num b"
  shows "strftime_ymd a = strftime_ymd b"
proof -
  have "month a \<le> 12" "day a \<le> 31" "month b \<le> 12" "day b \<le> 31"
    using assms(1,2) days_in_month_le [of "year a" "month a"]
      days_in_month_le [of "year b" "month b"]
    by (auto simp: valid_date_def)
  moreover have "10000 * year a + 100 * month a + day a = 10000 * year b + 100 * month b + day b"
    using assms(3) by (simp add: date_num_def)
  ultimately have e: "10000 * year a + 100 * month a + day a
      = 10000 * year b + 100 * month b + day b"
    and bd: "month a \<le> 12" "day a \<le> 31" "month b \<le> 12" "day b \<le> 31"
    by simp_all
  have y: "year a = year b"
  proof (rule ccontr)
    assume "year a \<noteq> year b"
    then consider "year a + 1 \<le> year b" | "year b + 1 \<le> year a" by linarith
    then show False
    proof cases
      case 1
      then have "10000 * (year a + 1) \<le> 10000 * year b" by (rule mult_le_mono2)
      then show False using e bd by simp
    next
      case 2
      then have "10000 * (year b + 1) \<le> 10000 * year a" by (rule mult_le_mono2)
      then show False using e bd by simp
    qed
  qed
  have m: "month a = month b"
  proof (rule ccontr)
    assume "month a \<noteq> month b"
    then consider "month a + 1 \<le> month b" | "month b + 1 \<le> month a" by linarith
    then show False
    proof cases
      case 1
      then have "100 * (month a + 1) \<le> 100 * month b" by (rule mult_le_mono2)
      then show False using e bd y by simp
    next
      case 2
      then have "100 * (month b + 1) \<le> 100 * month a" by (rule mult_le_mono2)
      then show False using e bd y by simp
    qed
  qed
  have "day a = day b"
    using e y m by simp
  then show ?thesis using y m by (simp add: strftime_ymd_def)
qed

lemma strftime_order:
  assumes "valid_date a" and "valid_date b"
  shows "strftime_ymd a < strftime_ymd b \<longleftrightarrow> date_num a < date_num b"
    and "strftime_ymd a = strftime_ymd b \<longleftrightarrow> date_num a = date_num b"
    and "strftime_ymd a \<le> strftime_ymd b \<longleftrightarrow> date_num a \<le> date_num b"
proof -
  consider "date_num a < date_num b" | "date_num a = date_num b" | "date_num b < date_num a"
    by (rule linorder_cases)
  then have "(strftime_ymd a < strftime_ymd b \<longleftrightarrow> date_num a < date_num b)
      \<and> (strftime_ymd a = strftime_ymd b \<longleftrightarrow> date_num a = date_num b)"
  proof cases
    case 1
    then show ?thesis using strftime_less [OF assms 1] by simp
  next
    case 2
    then show ?thesis using strftime_same [OF assms 2] by simp
  next
    case 3
    then show ?thesis using strftime_less [OF assms(2,1) 3] by auto
  qed
  then show "strftime_ymd a < strftime_ymd b \<longleftrightarrow> date_num a < date_num b"
    and "strftime_ymd a = strftime_ymd b \<longleftrightarrow> date_num a = date_num b"
    and "strftime_ymd a \<le> strftime_ymd b \<longleftrightarrow> date_num a \<le> date_num b"
    by (auto simp: le_less)
qed

lemma padded_obtain:
  assumes "padded s"
  obtains d where "valid_date d" and "strftime_ymd d = s" and "date_value s = Some (date_num d)"
proof -
  obtain d where d: "strptime_ymd s = Inr d" "strftime_ymd d = s"
    using assms by (auto simp: padded_def split: sum.splits)
  then show ?thesis
    using strptime_valid [OF d(1)] that by (simp add: date_value_def)
qed

lemma padded_strftime:
  assumes "valid_date d"
  shows "padded (strftime_ymd d)" and "date_value (strftime_ymd d) = Some (date_num d)"
  using strptime_strftime [OF assms]
  by (simp_all add: padded_def date_value_def strftime_ymd_def date_num_def)

lemma padded_order:
  assumes "padded s" and "padded t" and "date_value s = Some i" and "date_value t = Some j"
  shows "s < t \<longleftrightarrow> i < j" and "s = t \<longleftrightarrow> i = j" and "s \<le> t \<longleftrightarrow> i \<le> j"
proof -
  obtain a where a: "valid_date a" "strftime_ymd a = s" "date_value s = Some (date_num a)"
    using assms(1) by (rule padded_obtain)
  obtain b where b: "valid_date b" "strftime_ymd b = t" "date_value t = Some (date_num b)"
    using assms(2) by (rule padded_obtain)
  have ij: "i = date_num a" "j = date_num b"
    using a b assms(3,4) by simp_all
  show "s < t \<longleftrightarrow> i < j" and "s = t \<longleftrightarrow> i = j" and "s \<le> t \<longleftrightarrow> i \<le> j"
    using strftime_order [OF a(1) b(1)] by (simp_all add: a(2) b(2) ij)
qed

lemma valid_minus_days: "n < year dt \<Longrightarrow> valid_date dt \<Longrightarrow> valid_date (minus_days n dt)"
proof (induction n arbitrary: dt)
  case 0
  then show ?case by simp
next
  case (Suc n)
  have "valid_date (prev_day dt)"
    using Suc.prems prev_day_fields [of dt] by (simp add: valid_date_def)
  moreover have "n < year (prev_day dt)"
    using Suc.prems prev_day_fields(5) [of dt] by (simp add: valid_date_def)
  ultimately show ?case
    using Suc.IH by simp
qed

lemma valid_cutoff: "valid_now now \<Longrightarrow> valid_date (minus_days 30 now)"
  by (rule valid_minus_days) (simp_all add: valid_now_def)

lemma cutoff_padded:
  assumes "valid_now now"
  shows "padded (cutoff_str now)"
    and "date_value (cutoff_str now) = Some (date_num (minus_days 30 now))"
  using padded_strftime [OF valid_cutoff [OF assms]] by (simp_all add: cutoff_str_def)

lemma today_padded:
  assumes "valid_now now"
  shows "padded (strftime_ymd now)" and "date_value (strftime_ymd now) = Some (date_num now)"
  using padded_strftime [of now] assms by (simp_all add: valid_now_def)

subsection \<open>The retention window\<close>

lemma merged_padded:
  assumes "valid_now now" and "list_all (\<lambda>e. padded (date e)) h"
  shows "list_all (\<lambda>e. padded (date e)) (add_today_rating now h (Some r))"
  using add_today_rating_dates [of now h r] today_padded(1) [OF assms(1)] assms(2)
  by (auto simp: list_all_iff)

lemma upsert_padded:
  assumes "valid_now now" and "list_all (\<lambda>e. padded (date e)) h"
  shows "list_all (\<lambda>e. padded (date e)) (upsert_today now h r)"
proof -
  have "padded (date e)" if "e \<in> set (upsert_today now h r)" for e
  proof -
    have "date e \<in> insert (strftime_ymd now) (date ` set h)"
      using that upsert_today_dates [of now h r] by blast
    then show ?thesis
      using today_padded(1) [OF assms(1)] assms(2) by (auto simp: list_all_iff)
  qed
  then show ?thesis
    by (simp add: list_all_iff)
qed

lemma padded_value: "padded s \<Longrightarrow> \<exists>k. date_value s = Some k"
  by (auto elim: padded_obtain)

text \<open>
  C1, as the code has it. For every history and every rating, the list that
  \<^verbatim>\<open>add_today_rating\<close> returns has at most 30 entries, and none whose date string is
  below the cutoff string in the order of strings. When every date string of the
  history is in the zero-padded form YYYY-MM-DD (and the clock reads a date from 1970
  on), every returned entry is dated on or after the cutoff date, the day 30 days
  before the current date.
\<close>

theorem add_today_rating_window:
  "(\<forall>e \<in> set (add_today_rating now history (Some r)). \<not> date e < cutoff_str now)
   \<and> length (add_today_rating now history (Some r)) \<le> 30
   \<and> (valid_now now \<and> list_all (\<lambda>e. padded (date e)) history
        \<longrightarrow> (\<forall>e \<in> set (add_today_rating now history (Some r)).
              \<exists>k. date_value (date e) = Some k \<and> date_num (minus_days 30 now) \<le> k))"
proof (intro conjI impI)
  have sub: "set (add_today_rating now history (Some r))
        \<subseteq> set (prune now (sort_key date (upsert_today now history r)))"
    by (simp add: add_today_rating_def set_cap30)
  then show s: "\<forall>e \<in> set (add_today_rating now history (Some r)). \<not> date e < cutoff_str now"
    by (auto simp: set_prune)
  show "length (add_today_rating now history (Some r)) \<le> 30"
    by (simp add: add_today_rating_def length_cap30)
  assume a: "valid_now now \<and> list_all (\<lambda>e. padded (date e)) history"
  show "\<forall>e \<in> set (add_today_rating now history (Some r)).
      \<exists>k. date_value (date e) = Some k \<and> date_num (minus_days 30 now) \<le> k"
  proof
    fix e assume e: "e \<in> set (add_today_rating now history (Some r))"
    then have p: "padded (date e)"
      using merged_padded [of now history r] a by (simp add: list_all_iff)
    then obtain k where k: "date_value (date e) = Some k"
      using padded_value by blast
    have "cutoff_str now \<le> date e"
      using s e by (simp add: not_less)
    then have "date_num (minus_days 30 now) \<le> k"
      using padded_order(3) [OF cutoff_padded(1) p cutoff_padded(2) k] a by simp
    then show "\<exists>k. date_value (date e) = Some k \<and> date_num (minus_days 30 now) \<le> k"
      using k by simp
  qed
qed

text \<open>
  Without the zero padding the order of the strings is not the order of the dates: on
  3 November 2026 the entry dated \<^verbatim>\<open>2026-9-30\<close> is kept, though 30 September lies
  before the cutoff date, 4 October.
\<close>

lemmas date_defs = date_value_def date_num_def padded_def day_after_def

lemma unpadded_merged:
  "map date (add_today_rating sample_now unpadded_history (Some 1500))
     = [''2026-11-03'', ''2026-9-30'']"
  by (simp add: add_today_rating_def cap30_def prune_def cutoff_sample upsert_today_def
      today_sample unpadded_history_def)

lemma unpadded_value: "date_value ''2026-9-30'' = Some 20260930"
  by (simp add: date_defs strptime_defs)

lemma today_value: "date_value ''2026-11-03'' = Some 20261103"
  by (simp add: date_defs strptime_defs)

lemma cutoff_day: "date_num (minus_days 30 sample_now) = 20261004"
  by (simp add: sample_now_def minus_days_numeral prev_day_def days_in_month_def is_leap_def
      date_num_def)

theorem add_today_rating_window_counterexample:
  "map date (add_today_rating sample_now unpadded_history (Some 1500))
     = [''2026-11-03'', ''2026-9-30'']
   \<and> date_value ''2026-9-30'' = Some 20260930
   \<and> date_num (minus_days 30 sample_now) = 20261004
   \<and> (20260930 :: nat) < 20261004"
  by (simp add: unpadded_merged unpadded_value cutoff_day)

lemma padded_sample: "list_all (\<lambda>e. padded (date e)) sample_history"
  by (simp add: sample_history_def date_defs strptime_defs fmt_defs)

lemma sample_values:
  "date_value ''2026-10-20'' = Some 20261020" "date_value ''2026-09-01'' = Some 20260901"
  by (simp_all add: date_defs strptime_defs)

theorem add_today_rating_window_witness:
  "valid_now sample_now \<and> list_all (\<lambda>e. padded (date e)) sample_history
   \<and> map date (add_today_rating sample_now sample_history (Some 1500))
       = [''2026-10-20'', ''2026-11-03'']
   \<and> list_all (\<lambda>e. \<not> date e < cutoff_str sample_now)
        (add_today_rating sample_now sample_history (Some 1500))
   \<and> length (add_today_rating sample_now sample_history (Some 1500)) \<le> 30
   \<and> list_all (\<lambda>e. \<exists>k. date_value (date e) = Some k
          \<and> date_num (minus_days 30 sample_now) \<le> k)
        (add_today_rating sample_now sample_history (Some 1500))
   \<and> date_num (minus_days 30 sample_now) = 20261004"
  using add_today_rating_window [of sample_now sample_history 1500] add_sample
    valid_sample_now padded_sample cutoff_day
  by (simp add: list_all_iff)

subsection \<open>The order of the history\<close>

lemma values_the:
  fixes h :: history
  assumes "map (\<lambda>e. date_value (date e)) h = map Some ks"
  shows "ks = map (\<lambda>e. the (date_value (date e))) h"
    and "\<forall>e \<in> set h. date_value (date e) = Some (the (date_value (date e)))"
proof -
  have l: "length h = length ks"
    using assms by (metis length_map)
  have n: "date_value (date (h ! i)) = Some (ks ! i)" if "i < length h" for i
    using assms that l by (metis nth_map)
  show "ks = map (\<lambda>e. the (date_value (date e))) h"
    using l n by (intro nth_equalityI) simp_all
  show "\<forall>e \<in> set h. date_value (date e) = Some (the (date_value (date e)))"
    using n by (auto simp: in_set_conv_nth)
qed

lemma values_filter:
  fixes h :: history
  assumes "map (\<lambda>e. date_value (date e)) h = map Some ks" and "sorted ks"
  shows "\<exists>ks'. map (\<lambda>e. date_value (date e)) (filter P h) = map Some ks' \<and> sorted ks'"
proof -
  define f where "f = (\<lambda>e :: entry. the (date_value (date e)))"
  have ks: "ks = map f h" and v: "\<forall>e \<in> set h. date_value (date e) = Some (f e)"
    using values_the [OF assms(1)] by (simp_all add: f_def)
  have "map (\<lambda>e. date_value (date e)) (filter P h) = map Some (map f (filter P h))"
    using v by simp
  moreover have "sorted (map f (filter P h))"
    using assms(2) ks by (simp add: sorted_filter)
  ultimately show ?thesis by blast
qed

lemma merged_calendar_sorted:
  assumes "valid_now now" and "list_all (\<lambda>e. padded (date e)) history"
  shows "\<exists>ks. map (\<lambda>e. date_value (date e)) (add_today_rating now history (Some r))
      = map Some ks \<and> sorted ks"
proof -
  define res where "res = add_today_rating now history (Some r)"
  define f where "f = (\<lambda>e :: entry. the (date_value (date e)))"
  have p: "\<forall>e \<in> set res. padded (date e)"
    using merged_padded [OF assms, of r] by (simp add: res_def list_all_iff)
  have v: "date_value (date e) = Some (f e)" if "e \<in> set res" for e
    using p that padded_value [of "date e"] by (auto simp: f_def)
  have s: "sorted (map date res)"
    by (simp add: res_def add_today_rating_def sorted_cap30 sorted_prune)
  have "sorted_wrt (\<lambda>a b. f a \<le> f b) res"
  proof (rule sorted_wrt_mono_rel [of res "\<lambda>a b. date a \<le> date b"])
    fix a b assume "a \<in> set res" "b \<in> set res" "date a \<le> date b"
    then show "f a \<le> f b"
      using padded_order(3) [of "date a" "date b" "f a" "f b"] p v by simp
  next
    show "sorted_wrt (\<lambda>a b. date a \<le> date b) res"
      using s by (simp add: sorted_map)
  qed
  then have "sorted (map f res)"
    by (simp add: sorted_map)
  moreover have "map (\<lambda>e. date_value (date e)) res = map Some (map f res)"
    using v by simp
  ultimately show ?thesis
    unfolding res_def by blast
qed

text \<open>
  C4, as the code has it. For every history and every rating, the list that
  \<^verbatim>\<open>add_today_rating\<close> returns is sorted by date string, in the nondecreasing order of
  strings, and \<^verbatim>\<open>cleanup_old_data\<close> returns a history sorted by date string when the
  stored one is. When every date string of the history is in the zero-padded form
  YYYY-MM-DD (and the clock reads a date from 1970 on), the returned list is in
  nondecreasing order of the calendar dates; and \<^verbatim>\<open>cleanup_old_data\<close> returns a
  history in nondecreasing order of the calendar dates when the stored one is, since
  it only filters.
\<close>

theorem history_sorted:
  "sorted (map date (add_today_rating now history (Some r)))
   \<and> (\<forall>h. load_history json_load w = Inr h \<and> sorted (map date h)
        \<longrightarrow> (\<exists>h'. fst (cleanup_old_data json_load json_dump now w) = Inr h'
                  \<and> sorted (map date h')))
   \<and> (valid_now now \<and> list_all (\<lambda>e. padded (date e)) history
        \<longrightarrow> (\<exists>ks. map (\<lambda>e. date_value (date e)) (add_today_rating now history (Some r))
                    = map Some ks \<and> sorted ks))
   \<and> (\<forall>h ks. load_history json_load w = Inr h
          \<and> map (\<lambda>e. date_value (date e)) h = map Some ks \<and> sorted ks
        \<longrightarrow> (\<exists>h' ks'. fst (cleanup_old_data json_load json_dump now w) = Inr h'
                  \<and> map (\<lambda>e. date_value (date e)) h' = map Some ks' \<and> sorted ks'))"
proof (intro conjI)
  show "sorted (map date (add_today_rating now history (Some r)))"
    by (simp add: add_today_rating_def sorted_cap30 sorted_prune)
  show "\<forall>h. load_history json_load w = Inr h \<and> sorted (map date h)
        \<longrightarrow> (\<exists>h'. fst (cleanup_old_data json_load json_dump now w) = Inr h'
                  \<and> sorted (map date h'))"
    by (auto simp: cleanup_old_data_def Let_def sorted_prune)
  show "valid_now now \<and> list_all (\<lambda>e. padded (date e)) history
        \<longrightarrow> (\<exists>ks. map (\<lambda>e. date_value (date e)) (add_today_rating now history (Some r))
                    = map Some ks \<and> sorted ks)"
    using merged_calendar_sorted by blast
  show "\<forall>h ks. load_history json_load w = Inr h
          \<and> map (\<lambda>e. date_value (date e)) h = map Some ks \<and> sorted ks
        \<longrightarrow> (\<exists>h' ks'. fst (cleanup_old_data json_load json_dump now w) = Inr h'
                  \<and> map (\<lambda>e. date_value (date e)) h' = map Some ks' \<and> sorted ks')"
  proof (intro allI impI)
    fix h ks
    assume a: "load_history json_load w = Inr h
          \<and> map (\<lambda>e. date_value (date e)) h = map Some ks \<and> sorted ks"
    then obtain ks' where ks': "map (\<lambda>e. date_value (date e)) (prune now h) = map Some ks'"
      "sorted ks'"
      using values_filter [of h ks "\<lambda>entry. cutoff_str now \<le> date entry"]
      by (auto simp: prune_def)
    have "fst (cleanup_old_data json_load json_dump now w) = Inr (prune now h)
        \<or> fst (cleanup_old_data json_load json_dump now w) = Inr h"
      using a by (auto simp: cleanup_old_data_def Let_def)
    then show "\<exists>h' ks'. fst (cleanup_old_data json_load json_dump now w) = Inr h'
        \<and> map (\<lambda>e. date_value (date e)) h' = map Some ks' \<and> sorted ks'"
      using ks' a by blast
  qed
qed

text \<open>
  The same entry placed after today's: 3 November 2026 before 30 September 2026.
\<close>

theorem history_sorted_counterexample:
  "map date (add_today_rating sample_now unpadded_history (Some 1500))
     = [''2026-11-03'', ''2026-9-30'']
   \<and> date_value ''2026-11-03'' = Some 20261103
   \<and> date_value ''2026-9-30'' = Some 20260930
   \<and> \<not> sorted [20261103, 20260930 :: nat]"
  by (simp add: unpadded_merged unpadded_value today_value)

lemma stored_values:
  "map (\<lambda>e. date_value (date e)) (rev sample_history) = map Some [20260901, 20261020]"
  by (simp add: sample_history_def sample_values)

theorem history_sorted_witness:
  "sorted (map date (add_today_rating sample_now sample_history (Some 1500)))
   \<and> load_history sample_json_load sample_world = Inr (rev sample_history)
   \<and> sorted (map date (rev sample_history))
   \<and> (\<exists>h'. fst (cleanup_old_data sample_json_load sample_json_dump sample_now sample_world)
              = Inr h' \<and> sorted (map date h'))
   \<and> valid_now sample_now \<and> list_all (\<lambda>e. padded (date e)) sample_history
   \<and> (\<exists>ks. map (\<lambda>e. date_value (date e))
               (add_today_rating sample_now sample_history (Some 1500)) = map Some ks
            \<and> sorted ks)
   \<and> map (\<lambda>e. date_value (date e)) (rev sample_history) = map Some [20260901, 20261020]
   \<and> sorted [20260901, 20261020 :: nat]
   \<and> (\<exists>h' ks'. fst (cleanup_old_data sample_json_load sample_json_dump sample_now
                     sample_world) = Inr h'
            \<and> map (\<lambda>e. date_value (date e)) h' = map Some ks' \<and> sorted ks')"
proof -
  have s: "sorted (map date (rev sample_history))" "sorted [20260901, 20261020 :: nat]"
    by (simp_all add: sample_history_def)
  note t = history_sorted [of sample_now sample_history 1500 sample_json_load sample_world
      sample_json_dump]
  have a: "\<exists>h'. fst (cleanup_old_data sample_json_load sample_json_dump sample_now sample_world)
              = Inr h' \<and> sorted (map date h')"
    using t load_sample s(1) by blast
  have b: "\<exists>ks. map (\<lambda>e. date_value (date e))
               (add_today_rating sample_now sample_history (Some 1500)) = map Some ks
            \<and> sorted ks"
    using t valid_sample_now padded_sample by blast
  have c: "\<exists>h' ks'. fst (cleanup_old_data sample_json_load sample_json_dump sample_now
                     sample_world) = Inr h'
            \<and> map (\<lambda>e. date_value (date e)) h' = map Some ks' \<and> sorted ks'"
    using t load_sample stored_values s(2) by blast
  show ?thesis
    using t a b c load_sample s stored_values valid_sample_now padded_sample by simp
qed

subsection \<open>Upsert by calendar date\<close>

lemma day_after_iff:
  assumes "padded s" and "padded t" and "date_value s = Some k"
  shows "day_after k t \<longleftrightarrow> s < t"
proof -
  obtain j where j: "date_value t = Some j"
    using padded_value [OF assms(2)] by blast
  show ?thesis
    using padded_order(1) [OF assms(1,2,3) j] by (simp add: day_after_def j)
qed

lemma value_inj:
  "padded s \<Longrightarrow> padded t \<Longrightarrow> date_value s = date_value t \<Longrightarrow> s = t"
  using padded_order(2) padded_value by metis

text \<open>
  C2, as the code has it. Take a history whose date strings are in the zero-padded
  form YYYY-MM-DD, with pairwise distinct dates, and a clock reading from 1970 on.
  When fewer than 30 of its entries are dated after today, the list
  \<^verbatim>\<open>add_today_rating\<close> returns for the rating \<open>r\<close> has an entry dated today with the
  rating \<open>r\<close>. Every returned entry not dated today is an entry of the given history,
  unchanged; and an entry of the given history not dated today is returned unless it
  is dated before the cutoff date or 30 or more merged entries are dated after it (the
  cap of 30). When an entry dated today exists already, nothing is appended: that
  entry gets the new rating and time stamp in place, and the returned list is no
  longer than the given one. The returned dates are pairwise distinct.
\<close>

theorem upsert_by_date:
  assumes "list_all (\<lambda>e. padded (date e)) h"
    and "distinct (map (\<lambda>e. date_value (date e)) h)"
    and "valid_now now"
  shows "(length (filter (\<lambda>e. day_after (date_num now) (date e)) h) < 30
          \<longrightarrow> (\<exists>e \<in> set (add_today_rating now h (Some r)).
                date_value (date e) = Some (date_num now) \<and> rating e = r))
    \<and> (\<forall>e \<in> set (add_today_rating now h (Some r)).
          date_value (date e) \<noteq> Some (date_num now) \<longrightarrow> e \<in> set h)
    \<and> (\<forall>e \<in> set h. \<forall>k. date_value (date e) = Some k \<and> k \<noteq> date_num now
          \<and> date_num (minus_days 30 now) \<le> k
          \<and> length (filter (\<lambda>x. day_after k (date x)) (upsert_today now h r)) < 30
          \<longrightarrow> e \<in> set (add_today_rating now h (Some r)))
    \<and> ((\<exists>e \<in> set h. date_value (date e) = Some (date_num now))
          \<longrightarrow> (\<exists>i < length h. date_value (date (h ! i)) = Some (date_num now)
                \<and> upsert_today now h r
                    = h[i := (h ! i)\<lparr>rating := r, updated := isoformat now\<rparr>])
              \<and> length (add_today_rating now h (Some r)) \<le> length h)
    \<and> distinct (map (\<lambda>e. date_value (date e)) (add_today_rating now h (Some r)))"
proof -
  define t where "t = strftime_ymd now"
  define res where "res = add_today_rating now h (Some r)"
  have tp: "padded t" and tv: "date_value t = Some (date_num now)"
    using today_padded [OF assms(3)] by (simp_all add: t_def)
  have hp: "padded (date e)" if "e \<in> set h" for e
    using assms(1) that by (simp add: list_all_iff)
  have up: "padded (date e)" if "e \<in> set (upsert_today now h r)" for e
    using upsert_padded [OF assms(3,1), of r] that by (simp add: list_all_iff)
  have rp: "padded (date e)" if "e \<in> set res" for e
    using merged_padded [OF assms(3,1), of r] that by (simp add: list_all_iff res_def)
  have "map (\<lambda>e. date_value (date e)) h = map date_value (map date h)"
    by simp
  then have d: "distinct (map date h)"
    using assms(2) by (metis distinct_map)
  note s = upsert_by_string [OF d assms(3), of r, folded t_def res_def]
  have today_iff: "date e = t \<longleftrightarrow> date_value (date e) = Some (date_num now)"
    if "padded (date e)" for e :: entry
    using value_inj [OF that tp] tv by auto
  have p1: "\<exists>e \<in> set res. date_value (date e) = Some (date_num now) \<and> rating e = r"
    if c: "length (filter (\<lambda>e. day_after (date_num now) (date e)) h) < 30"
  proof -
    have "filter (\<lambda>e. t < date e) h = filter (\<lambda>e. day_after (date_num now) (date e)) h"
      using day_after_iff [OF tp _ tv] hp by (intro filter_cong) simp_all
    then have "\<exists>e \<in> set res. date e = t \<and> rating e = r"
      using s c by simp
    then show ?thesis
      using tv by auto
  qed
  have p2: "\<forall>e \<in> set res. date_value (date e) \<noteq> Some (date_num now) \<longrightarrow> e \<in> set h"
    using s tv by auto
  have p3: "\<forall>e \<in> set h. \<forall>k. date_value (date e) = Some k \<and> k \<noteq> date_num now
          \<and> date_num (minus_days 30 now) \<le> k
          \<and> length (filter (\<lambda>x. day_after k (date x)) (upsert_today now h r)) < 30
          \<longrightarrow> e \<in> set res"
  proof (intro ballI allI impI)
    fix e k
    assume e: "e \<in> set h"
      and c: "date_value (date e) = Some k \<and> k \<noteq> date_num now
          \<and> date_num (minus_days 30 now) \<le> k
          \<and> length (filter (\<lambda>x. day_after k (date x)) (upsert_today now h r)) < 30"
    have ne: "date e \<noteq> t"
      using c tv by auto
    have co: "cutoff_str now \<le> date e"
      using padded_order(3) [OF cutoff_padded(1) [OF assms(3)] hp [OF e]
          cutoff_padded(2) [OF assms(3)] conjunct1 [OF c]] c
      by simp
    have "filter (\<lambda>x. date e < date x) (upsert_today now h r)
        = filter (\<lambda>x. day_after k (date x)) (upsert_today now h r)"
      using day_after_iff [OF hp [OF e] _ conjunct1 [OF c]] up
      by (intro filter_cong) simp_all
    then have "length (filter (\<lambda>x. date e < date x) (upsert_today now h r)) < 30"
      using c by simp
    then show "e \<in> set res"
      using s e ne co by blast
  qed
  have p4: "(\<exists>i < length h. date_value (date (h ! i)) = Some (date_num now)
                \<and> upsert_today now h r
                    = h[i := (h ! i)\<lparr>rating := r, updated := isoformat now\<rparr>])
              \<and> length res \<le> length h"
    if ex: "\<exists>e \<in> set h. date_value (date e) = Some (date_num now)"
  proof -
    obtain e where "e \<in> set h" "date_value (date e) = Some (date_num now)"
      using ex by blast
    then have "t \<in> date ` set h"
      using today_iff [OF hp, of e] by force
    then have "(\<exists>i < length h. date (h ! i) = t
          \<and> upsert_today now h r = h[i := (h ! i)\<lparr>rating := r, updated := isoformat now\<rparr>])
        \<and> length res \<le> length h"
      using s by blast
    then show ?thesis
      using tv by auto
  qed
  have p5: "distinct (map (\<lambda>e. date_value (date e)) res)"
  proof -
    have "distinct (map date res)"
      using s by blast
    moreover have "inj_on date_value (set (map date res))"
      using rp by (auto intro!: inj_onI value_inj)
    ultimately have "distinct (map date_value (map date res))"
      by (simp only: distinct_map)
    then show ?thesis
      by (simp add: comp_def)
  qed
  show ?thesis
    using p1 p2 p3 p4 p5 unfolding res_def by blast
qed

text \<open>
  With 30 entries dated after today, today's entry is the one the cap drops; and an
  entry for today written without the zero padding is not recognised, so that a second
  entry for today is appended.
\<close>

lemma unpadded_today_merged:
  "map date (add_today_rating sample_now unpadded_today (Some 1500))
     = [''2026-11-03'', ''2026-11-3'']"
  "map rating (add_today_rating sample_now unpadded_today (Some 1500)) = [1500, 1490]"
  by (simp_all add: add_today_rating_def cap30_def prune_def cutoff_sample upsert_today_def
      today_sample unpadded_today_def)

lemma unpadded_today_value: "date_value ''2026-11-3'' = Some 20261103"
  by (simp add: date_defs strptime_defs)

lemma today_day: "date_num sample_now = 20261103"
  by (simp add: sample_now_def date_num_def)

theorem upsert_by_date_counterexample:
  "distinct (map date future_history)
   \<and> strftime_ymd sample_now = ''2026-11-03''
   \<and> add_today_rating sample_now future_history (Some 1500) = future_history
   \<and> ''2026-11-03'' \<notin> set (map date (add_today_rating sample_now future_history (Some 1500)))
   \<and> date_num sample_now = 20261103
   \<and> map date unpadded_today = [''2026-11-3'']
   \<and> date_value ''2026-11-3'' = Some 20261103
   \<and> map date (add_today_rating sample_now unpadded_today (Some 1500))
       = [''2026-11-03'', ''2026-11-3'']
   \<and> map rating (add_today_rating sample_now unpadded_today (Some 1500)) = [1500, 1490]"
proof -
  have "distinct (map date future_history)"
    by (simp only: future_dates) simp
  moreover have "map date unpadded_today = [''2026-11-3'']"
    by (simp add: unpadded_today_def)
  ultimately show ?thesis
    using future_no_today
    by (simp add: future_merged today_sample today_day unpadded_today_value
        unpadded_today_merged)
qed

lemma updated_facts:
  "list_all (\<lambda>e. padded (date e)) updated_history"
  "distinct (map (\<lambda>e. date_value (date e)) updated_history)"
  "length (filter (\<lambda>e. day_after (date_num sample_now) (date e)) updated_history) < 30"
  "hd updated_history \<in> set updated_history"
  "date_value (date (hd updated_history)) = Some 20261020"
  "length (filter (\<lambda>x. day_after 20261020 (date x))
     (upsert_today sample_now updated_history 1510)) < 30"
  "date_value (date (updated_history ! 1)) = Some (date_num sample_now)"
  "updated_history ! 1 \<in> set updated_history"
  by (simp_all add: updated_history_def date_defs strptime_defs fmt_defs today_sample
      upsert_today_def sample_now_def)

theorem upsert_by_date_witness:
  "list_all (\<lambda>e. padded (date e)) updated_history
   \<and> distinct (map (\<lambda>e. date_value (date e)) updated_history)
   \<and> valid_now sample_now
   \<and> length (filter (\<lambda>e. day_after (date_num sample_now) (date e)) updated_history) < 30
   \<and> (\<exists>e \<in> set (add_today_rating sample_now updated_history (Some 1510)).
         date_value (date e) = Some (date_num sample_now) \<and> rating e = 1510)
   \<and> hd updated_history \<in> set updated_history
   \<and> date_value (date (hd updated_history)) = Some 20261020
   \<and> 20261020 \<noteq> date_num sample_now
   \<and> date_num (minus_days 30 sample_now) \<le> 20261020
   \<and> length (filter (\<lambda>x. day_after 20261020 (date x))
        (upsert_today sample_now updated_history 1510)) < 30
   \<and> hd updated_history \<in> set (add_today_rating sample_now updated_history (Some 1510))
   \<and> (\<exists>e \<in> set updated_history. date_value (date e) = Some (date_num sample_now))
   \<and> (\<exists>i < length updated_history.
         date_value (date (updated_history ! i)) = Some (date_num sample_now)
         \<and> upsert_today sample_now updated_history 1510
             = updated_history[i := (updated_history ! i)\<lparr>rating := 1510,
                 updated := isoformat sample_now\<rparr>])
   \<and> length (add_today_rating sample_now updated_history (Some 1510))
       \<le> length updated_history
   \<and> distinct (map (\<lambda>e. date_value (date e))
        (add_today_rating sample_now updated_history (Some 1510)))"
proof -
  note t = upsert_by_date [OF updated_facts(1,2) valid_sample_now, of 1510]
  have n: "20261020 \<noteq> date_num sample_now" "date_num (minus_days 30 sample_now) \<le> 20261020"
    by (simp_all add: today_day cutoff_day)
  have e: "\<exists>e \<in> set updated_history. date_value (date e) = Some (date_num sample_now)"
    using updated_facts(7,8) by blast
  have k: "hd updated_history \<in> set (add_today_rating sample_now updated_history (Some 1510))"
    using t updated_facts(4,5,6) n by blast
  show ?thesis
    using t updated_facts valid_sample_now n e k by blast
qed

end
